theory Spec2Isabelle
  imports Main "HOL-Library.Word"
begin

unbundle bit_operations_syntax

section \<open>Bytes\<close>

text \<open>
  A Python \<open>bytes\<close> or \<open>bytearray\<close> value is a list of 8-bit words. Python integers are
  unbounded and are modelled as \<open>int\<close>.
\<close>

type_synonym byte = "8 word"
type_synonym bytes = "byte list"

section \<open>Errors\<close>

text \<open>
  Every exception the modelled code can raise is a value of this type; a fallible
  function returns \<open>error + 'a\<close> with \<open>Inl\<close> for the raised exception.
\<close>

datatype error =
    AssertionError
  | StructError
  | IncompleteReadError
  | ZlibError
  | UnicodeDecodeError
  | DecodeError
  | InvalidStateError
  | RuntimeError
  | KeyError
  | NotImplementedError

section \<open>ChunkFlags\<close>

text \<open>
  \<open>class ChunkFlags(dict)\<close> holds the four flags of a chunk. \<open>_masks\<close> gives for every
  flag the pair (mask, shift); the encoder and decoder of each entry are \<open>int\<close> and
  \<open>bool\<close>.
\<close>

record ChunkFlags =
  eom :: bool
  send_ack :: bool
  recv_ack :: bool
  compression :: bool

definition masks_eom :: "int \<times> nat" where "masks_eom = (1, 0)"
definition masks_send_ack :: "int \<times> nat" where "masks_send_ack = (1, 1)"
definition masks_recv_ack :: "int \<times> nat" where "masks_recv_ack = (1, 2)"
definition masks_compression :: "int \<times> nat" where "masks_compression = (1, 3)"

text \<open>\<open>_mask_value\<close>: \<open>(enc(v) & mask) << shift\<close> with \<open>enc = int\<close>.\<close>

definition mask_value :: "int \<times> nat \<Rightarrow> bool \<Rightarrow> int" where
  "mask_value m v = (case m of (msk, shft) \<Rightarrow> push_bit shft (of_bool v AND msk))"

text \<open>\<open>ChunkFlags.encode\<close>: the sum of the masked values of all items of the dict.\<close>

definition ChunkFlags_encode :: "ChunkFlags \<Rightarrow> int" where
  "ChunkFlags_encode f =
     sum_list [mask_value masks_eom (eom f),
               mask_value masks_send_ack (send_ack f),
               mask_value masks_recv_ack (recv_ack f),
               mask_value masks_compression (compression f)]"

text \<open>\<open>_unmask_value\<close>: \<open>dec((value >> shift) & mask)\<close> with \<open>dec = bool\<close>.\<close>

definition unmask_value :: "int \<times> nat \<Rightarrow> int \<Rightarrow> bool" where
  "unmask_value m v = (case m of (msk, shft) \<Rightarrow> (drop_bit shft v AND msk) \<noteq> 0)"

definition ChunkFlags_decode :: "int \<Rightarrow> ChunkFlags" where
  "ChunkFlags_decode v =
     \<lparr>eom = unmask_value masks_eom v,
      send_ack = unmask_value masks_send_ack v,
      recv_ack = unmask_value masks_recv_ack v,
      compression = unmask_value masks_compression v\<rparr>"

section \<open>The struct module\<close>

text \<open>
  \<open>struct.pack\<close> and \<open>struct.unpack\<close> with a format starting with \<open>!\<close>: network
  byte order, standard sizes, no padding. \<open>be_bytes k v\<close> is the big-endian
  representation of \<open>v\<close> on \<open>k\<close> bytes and \<open>be_int\<close> reads one back.
\<close>

fun be_bytes :: "nat \<Rightarrow> int \<Rightarrow> bytes" where
  "be_bytes 0 v = []"
| "be_bytes (Suc k) v = be_bytes k (v div 256) @ [word_of_int v]"

definition be_int :: "bytes \<Rightarrow> int" where
  "be_int bs = foldl (\<lambda>acc b. acc * 256 + uint b) 0 bs"

text \<open>
  The unsigned codes \<open>H\<close> (2 bytes), \<open>I\<close> (4 bytes) and \<open>Q\<close> (8 bytes): packing a
  Python integer outside the range of the code raises \<open>struct.error\<close>.
\<close>

definition pack_uint :: "nat \<Rightarrow> int \<Rightarrow> error + bytes" where
  "pack_uint k v = (if 0 \<le> v \<and> v < 2 ^ (8 * k) then Inr (be_bytes k v) else Inl StructError)"

text \<open>
  The code \<open>d\<close>: a Python float is an IEEE 754 binary64 value, modelled by its 64-bit
  pattern, which is what \<open>d\<close> writes and reads.
\<close>

definition pack_d :: "64 word \<Rightarrow> bytes" where
  "pack_d t = be_bytes 8 (uint t)"

definition unpack_d :: "bytes \<Rightarrow> 64 word" where
  "unpack_d bs = word_of_int (be_int bs)"

text \<open>The code \<open>32s\<close>: the bytes truncated or padded with null bytes to the width.\<close>

definition pack_s :: "nat \<Rightarrow> bytes \<Rightarrow> bytes" where
  "pack_s n bs = take n bs @ replicate (n - length bs) 0"

section \<open>Uid\<close>

text \<open>
  \<open>class Uid\<close>: the four components and the cached serialization \<open>bytes\<close>. The format
  is \<open>"!dQQQ"\<close>, 8 + 8 + 8 + 8 = 32 bytes.
\<close>

record Uid =
  uid_time :: "64 word"
  uid_id :: int
  uid_tid :: int
  uid_seq :: int
  uid_bytes :: bytes

definition Uid_fmt_size :: nat where
  "Uid_fmt_size = 32"

text \<open>\<open>struct.pack("!dQQQ", time, id, tid, seq)\<close>.\<close>

definition pack_uid :: "64 word \<Rightarrow> int \<Rightarrow> int \<Rightarrow> int \<Rightarrow> error + bytes" where
  "pack_uid t i ti s =
     (case pack_uint 8 i of Inl e \<Rightarrow> Inl e | Inr bi \<Rightarrow>
      (case pack_uint 8 ti of Inl e \<Rightarrow> Inl e | Inr bti \<Rightarrow>
       (case pack_uint 8 s of Inl e \<Rightarrow> Inl e | Inr bs \<Rightarrow>
          Inr (pack_d t @ bi @ bti @ bs))))"

text \<open>\<open>struct.unpack("!dQQQ", bytes)\<close>: the buffer must have exactly the size of the format.\<close>

definition unpack_uid :: "bytes \<Rightarrow> error + (64 word \<times> int \<times> int \<times> int)" where
  "unpack_uid b =
     (if length b \<noteq> Uid_fmt_size then Inl StructError
      else Inr (unpack_d (take 8 b), be_int (take 8 (drop 8 b)),
                be_int (take 8 (drop 16 b)), be_int (take 8 (drop 24 b))))"

text \<open>
  The thread-local \<open>Uid._uid\<close>: \<open>tl_uid\<close> is \<open>None\<close> until the first call of
  \<open>_create_uid\<close> in the thread. A thread is given by \<open>thread.ident\<close> and \<open>id(thread)\<close>.
\<close>

record uid_local =
  tl_tid :: int
  tl_id :: int
  tl_uid :: "int option"

record thread =
  thread_ident :: int
  thread_addr :: int

text \<open>\<open>Uid._create_uid\<close>; \<open>now\<close> is the reading of \<open>time.time()\<close>.\<close>

definition create_uid :: "thread \<Rightarrow> 64 word \<Rightarrow> uid_local \<Rightarrow> (64 word \<times> int \<times> int \<times> int) \<times> uid_local" where
  "create_uid thr now l =
     (let l1 = (case tl_uid l of
                  None \<Rightarrow> \<lparr>tl_tid = thread_ident thr, tl_id = thread_addr thr, tl_uid = Some 0\<rparr>
                | Some _ \<Rightarrow> l);
          n = (case tl_uid l1 of None \<Rightarrow> 0 | Some c \<Rightarrow> c) + 1;
          l2 = l1\<lparr>tl_uid := Some n\<rparr>
      in ((now, tl_id l2, tl_tid l2, n), l2))"

text \<open>
  \<open>Uid.__init__(time, id, tid, seq, bytes)\<close>, every argument optional. With all four
  components given they are taken as they are; otherwise non-empty \<open>bytes\<close> are
  unpacked, and without them a fresh uid is created. \<open>self.bytes\<close> is
  \<open>bytes or struct.pack(fmt, time, id, tid, seq)\<close>.
\<close>

definition Uid_init ::
  "thread \<Rightarrow> 64 word \<Rightarrow> uid_local \<Rightarrow> 64 word option \<Rightarrow> int option \<Rightarrow> int option \<Rightarrow> int option
     \<Rightarrow> bytes option \<Rightarrow> error + (Uid \<times> uid_local)" where
  "Uid_init thr now l t i ti s b =
     (let truthy = (case b of None \<Rightarrow> False | Some bs \<Rightarrow> bs \<noteq> []);
          fields =
            (case (t, i, ti, s) of
               (Some t', Some i', Some ti', Some s') \<Rightarrow> Inr ((t', i', ti', s'), l)
             | _ \<Rightarrow> if truthy
                    then (case unpack_uid (the b) of Inl e \<Rightarrow> Inl e | Inr f \<Rightarrow> Inr (f, l))
                    else Inr (create_uid thr now l))
      in case fields of
           Inl e \<Rightarrow> Inl e
         | Inr ((t', i', ti', s'), l') \<Rightarrow>
             (case (if truthy then Inr (the b) else pack_uid t' i' ti' s') of
                Inl e \<Rightarrow> Inl e
              | Inr bs \<Rightarrow>
                  Inr (\<lparr>uid_time = t', uid_id = i', uid_tid = ti', uid_seq = s', uid_bytes = bs\<rparr>, l')))"

text \<open>\<open>Uid.__msgpack_encode__\<close> and \<open>Uid.__msgpack_decode__\<close>.\<close>

definition Uid_msgpack_encode :: "Uid \<Rightarrow> bytes" where
  "Uid_msgpack_encode u = uid_bytes u"

definition Uid_msgpack_decode :: "thread \<Rightarrow> 64 word \<Rightarrow> uid_local \<Rightarrow> bytes \<Rightarrow> error + (Uid \<times> uid_local)" where
  "Uid_msgpack_decode thr now l encoded = Uid_init thr now l None None None None (Some encoded)"

text \<open>
  \<open>Uid(bytes=b)\<close> for non-empty \<open>b\<close>, the only form in which the frame codec calls the
  constructor: neither the clock nor the thread-local counter is read.
\<close>

definition Uid_of_bytes :: "bytes \<Rightarrow> error + Uid" where
  "Uid_of_bytes b =
     (case unpack_uid b of
        Inl e \<Rightarrow> Inl e
      | Inr (t, i, ti, s) \<Rightarrow>
          Inr \<lparr>uid_time = t, uid_id = i, uid_tid = ti, uid_seq = s, uid_bytes = b\<rparr>)"

section \<open>hashlib.md5\<close>

text \<open>
  The digest of the header is \<open>hashlib.md5(header).digest()\<close>. MD5 is computed as the
  library does (RFC 1321): the message is padded to a multiple of 64 bytes, each block
  of sixteen little-endian 32-bit words goes through 64 steps, and the four state words
  are written out little-endian.
\<close>

definition md5_K :: "32 word list" where
  "md5_K = [
    0xd76aa478, 0xe8c7b756, 0x242070db, 0xc1bdceee, 0xf57c0faf, 0x4787c62a, 0xa8304613, 0xfd469501,
    0x698098d8, 0x8b44f7af, 0xffff5bb1, 0x895cd7be, 0x6b901122, 0xfd987193, 0xa679438e, 0x49b40821,
    0xf61e2562, 0xc040b340, 0x265e5a51, 0xe9b6c7aa, 0xd62f105d, 0x02441453, 0xd8a1e681, 0xe7d3fbc8,
    0x21e1cde6, 0xc33707d6, 0xf4d50d87, 0x455a14ed, 0xa9e3e905, 0xfcefa3f8, 0x676f02d9, 0x8d2a4c8a,
    0xfffa3942, 0x8771f681, 0x6d9d6122, 0xfde5380c, 0xa4beea44, 0x4bdecfa9, 0xf6bb4b60, 0xbebfbc70,
    0x289b7ec6, 0xeaa127fa, 0xd4ef3085, 0x04881d05, 0xd9d4d039, 0xe6db99e5, 0x1fa27cf8, 0xc4ac5665,
    0xf4292244, 0x432aff97, 0xab9423a7, 0xfc93a039, 0x655b59c3, 0x8f0ccc92, 0xffeff47d, 0x85845dd1,
    0x6fa87e4f, 0xfe2ce6e0, 0xa3014314, 0x4e0811a1, 0xf7537e82, 0xbd3af235, 0x2ad7d2bb, 0xeb86d391]"

definition md5_s :: "nat list" where
  "md5_s = [7, 12, 17, 22, 7, 12, 17, 22, 7, 12, 17, 22, 7, 12, 17, 22,
            5, 9, 14, 20, 5, 9, 14, 20, 5, 9, 14, 20, 5, 9, 14, 20,
            4, 11, 16, 23, 4, 11, 16, 23, 4, 11, 16, 23, 4, 11, 16, 23,
            6, 10, 15, 21, 6, 10, 15, 21, 6, 10, 15, 21, 6, 10, 15, 21]"

type_synonym md5_state = "32 word \<times> 32 word \<times> 32 word \<times> 32 word"

definition rotl32 :: "nat \<Rightarrow> 32 word \<Rightarrow> 32 word" where
  "rotl32 n w = push_bit n w OR drop_bit (32 - n) w"

definition le_bytes32 :: "32 word \<Rightarrow> bytes" where
  "le_bytes32 w = map (\<lambda>i. ucast (drop_bit (8 * i) w)) [0, 1, 2, 3]"

definition le_bytes64 :: "64 word \<Rightarrow> bytes" where
  "le_bytes64 w = map (\<lambda>i. ucast (drop_bit (8 * i) w)) [0, 1, 2, 3, 4, 5, 6, 7]"

definition le_word32 :: "bytes \<Rightarrow> 32 word" where
  "le_word32 bs = foldr (\<lambda>b acc. ucast b OR push_bit 8 acc) bs 0"

definition md5_pad :: "bytes \<Rightarrow> bytes" where
  "md5_pad m =
     m @ [0x80] @ replicate ((119 - length m mod 64) mod 64) 0 @ le_bytes64 (word_of_nat (8 * length m))"

fun md5_step :: "32 word list \<Rightarrow> md5_state \<Rightarrow> nat \<Rightarrow> md5_state" where
  "md5_step M (A, B, C, D) i =
     (let (F, g) =
        (if i < 16 then ((B AND C) OR (NOT B AND D), i)
         else if i < 32 then ((D AND B) OR (NOT D AND C), (5 * i + 1) mod 16)
         else if i < 48 then (B XOR C XOR D, (3 * i + 5) mod 16)
         else (C XOR (B OR NOT D), (7 * i) mod 16))
      in (D, B + rotl32 (md5_s ! i) (F + A + md5_K ! i + M ! g), B, C))"

definition md5_block :: "md5_state \<Rightarrow> bytes \<Rightarrow> md5_state" where
  "md5_block h blk =
     (let M = map (\<lambda>j. le_word32 (take 4 (drop (4 * j) blk))) [0..<16];
          (a0, b0, c0, d0) = h;
          (A, B, C, D) = foldl (md5_step M) h [0..<64]
      in (a0 + A, b0 + B, c0 + C, d0 + D))"

fun md5_blocks :: "nat \<Rightarrow> md5_state \<Rightarrow> bytes \<Rightarrow> md5_state" where
  "md5_blocks 0 h bs = h"
| "md5_blocks (Suc n) h bs = md5_blocks n (md5_block h (take 64 bs)) (drop 64 bs)"

definition md5 :: "bytes \<Rightarrow> bytes" where
  "md5 m =
     (let p = md5_pad m;
          (a, b, c, d) = md5_blocks (length p div 64) (0x67452301, 0xefcdab89, 0x98badcfe, 0x10325476) p
      in concat (map le_bytes32 [a, b, c, d]))"

section \<open>The frame header\<close>

text \<open>
  \<open>HEADER_FMT = '!32sQHI'\<close>: the uid bytes on 32 bytes, the flags on 8, the length of
  the channel name on 2 and the length of the data on 4, without padding.
  \<open>HEADER_SIZE = struct.calcsize(HEADER_FMT)\<close>.
\<close>

definition HEADER_SIZE :: nat where
  "HEADER_SIZE = 32 + 8 + 2 + 4"

definition pack_header :: "bytes \<Rightarrow> int \<Rightarrow> int \<Rightarrow> int \<Rightarrow> error + bytes" where
  "pack_header ub fl cnl dl =
     (case pack_uint 8 fl of Inl e \<Rightarrow> Inl e | Inr bf \<Rightarrow>
      (case pack_uint 2 cnl of Inl e \<Rightarrow> Inl e | Inr bc \<Rightarrow>
       (case pack_uint 4 dl of Inl e \<Rightarrow> Inl e | Inr bd \<Rightarrow>
          Inr (pack_s 32 ub @ bf @ bc @ bd))))"

definition unpack_header :: "bytes \<Rightarrow> error + (bytes \<times> int \<times> int \<times> int)" where
  "unpack_header h =
     (if length h \<noteq> HEADER_SIZE then Inl StructError
      else Inr (take 32 h, be_int (take 8 (drop 32 h)), be_int (take 2 (drop 40 h)),
                be_int (take 4 (drop 42 h))))"

text \<open>
  \<open>Channel._encode_header(uid, channel_name, data, flags)\<close>. \<open>str_enc\<close> is
  \<open>str.encode\<close>. A channel name that is \<open>None\<close> or empty gives the length 0, and so
  does data that is \<open>None\<close> or empty.
\<close>

definition encode_header ::
  "(string \<Rightarrow> bytes) \<Rightarrow> Uid \<Rightarrow> string option \<Rightarrow> bytes option \<Rightarrow> ChunkFlags \<Rightarrow> error + bytes" where
  "encode_header str_enc uid channel_name data flags =
     (let channel_name_length =
            (case channel_name of
               None \<Rightarrow> 0
             | Some n \<Rightarrow> if n \<noteq> [] then int (length (str_enc n)) else 0);
          data_length = (case data of None \<Rightarrow> 0 | Some d \<Rightarrow> int (length d))
      in case pack_header (uid_bytes uid) (ChunkFlags_encode flags) channel_name_length data_length of
           Inl e \<Rightarrow> Inl e
         | Inr header \<Rightarrow> Inr (header @ md5 header))"

text \<open>
  \<open>Channel._decode_header(header)\<close>: the assertion on the checksum over
  \<open>header[:-16]\<close> against \<open>header[-16:]\<close>, then \<open>struct.unpack\<close> of \<open>header[:-16]\<close>.
\<close>

definition decode_header :: "bytes \<Rightarrow> error + (Uid \<times> ChunkFlags \<times> int \<times> int)" where
  "decode_header header =
     (if md5 (take (length header - 16) header) \<noteq> drop (length header - 16) header
      then Inl AssertionError
      else case unpack_header (take (length header - 16) header) of
             Inl e \<Rightarrow> Inl e
           | Inr (uid_bytes', flags_encoded, channel_name_length, data_length) \<Rightarrow>
               (case Uid_of_bytes uid_bytes' of
                  Inl e \<Rightarrow> Inl e
                | Inr uid \<Rightarrow>
                    Inr (uid, ChunkFlags_decode flags_encoded, channel_name_length, data_length)))"

section \<open>Example values\<close>

text \<open>
  \<open>Uid(time=1.5, id=7, tid=9, seq=1)\<close> (the binary64 pattern of 1.5 is
  \<open>0x3FF8000000000000\<close>), the flags of an acknowledgement frame, and the header
  \<open>_encode_header(uid, None, None, flags={'eom': True, 'recv_ack': True})\<close> of that uid.
\<close>

definition example_uid :: Uid where
  "example_uid =
     \<lparr>uid_time = 0x3FF8000000000000, uid_id = 7, uid_tid = 9, uid_seq = 1,
      uid_bytes = [0x3F, 0xF8, 0, 0, 0, 0, 0, 0, 0, 0, 0, 0, 0, 0, 0, 7,
                   0, 0, 0, 0, 0, 0, 0, 9, 0, 0, 0, 0, 0, 0, 0, 1]\<rparr>"

definition ack_flags :: ChunkFlags where
  "ack_flags = \<lparr>eom = True, send_ack = False, recv_ack = True, compression = False\<rparr>"

definition example_ack_header :: bytes where
  "example_ack_header =
     [63, 248, 0, 0, 0, 0, 0, 0, 0, 0, 0, 0, 0, 0, 0, 7,
      0, 0, 0, 0, 0, 0, 0, 9, 0, 0, 0, 0, 0, 0, 0, 1,
      0, 0, 0, 0, 0, 0, 0, 5, 0, 0, 0, 0, 0, 0,
      54, 58, 129, 136, 94, 182, 9, 14, 7, 5, 124, 221, 193, 205, 108, 62]"

section \<open>The command registry\<close>

text \<open>
  A class created by the metaclass \<open>_CommandMeta\<close>: its name, the names of its bases,
  the module and the rest of the class body, and the \<open>command_name\<close> that \<open>__new__\<close>
  stores in the class dict.
\<close>

record 'b py_class =
  cls_name :: string
  cls_bases :: "string list"
  cls_module :: string
  cls_body :: 'b
  command_name :: string

text \<open>The class attributes \<open>_CommandMeta.base\<close> and \<open>_CommandMeta.commands\<close>.\<close>

record 'b CommandMeta =
  base :: "'b py_class option"
  commands :: "string \<rightharpoonup> 'b py_class"

text \<open>
  \<open>_CommandMeta.__new__(mcs, name, bases, dct)\<close>. The dict \<open>dct\<close> is given by its
  \<open>'__module__'\<close> entry, if any, and the rest of the body; a missing entry is a
  \<open>KeyError\<close>. The first class created becomes \<open>base\<close> and is not registered; every
  later class is stored under its command name.
\<close>

definition CommandMeta_new ::
  "'b CommandMeta \<Rightarrow> string \<Rightarrow> string list \<Rightarrow> string option \<times> 'b
     \<Rightarrow> error + ('b py_class \<times> 'b CommandMeta)" where
  "CommandMeta_new mcs name bases dct =
     (case fst dct of
        None \<Rightarrow> Inl KeyError
      | Some module_name \<Rightarrow>
          (let cmd_name = module_name @ '':'' @ name;
               cls = \<lparr>cls_name = name, cls_bases = bases, cls_module = module_name,
                      cls_body = snd dct, command_name = cmd_name\<rparr>
           in if base mcs = None
              then Inr (cls, mcs\<lparr>base := Some cls\<rparr>)
              else Inr (cls, mcs\<lparr>commands := (commands mcs)(cmd_name \<mapsto> cls)\<rparr>)))"

section \<open>Pending commands and their teardown\<close>

text \<open>The state of an \<open>asyncio.Future\<close>.\<close>

datatype 'r future_state = Pending | Cancelled | Finished_result 'r | Finished_exception error

text \<open>\<open>Future.cancel()\<close>: a future that is done stays as it is.\<close>

definition future_cancel :: "'r future_state \<Rightarrow> 'r future_state" where
  "future_cancel f = (case f of Pending \<Rightarrow> Cancelled | _ \<Rightarrow> f)"

text \<open>
  \<open>Execute.pending_commands\<close> is a dict from channel names to futures. The dict is
  kept as the list of its items in insertion order, each future by its address in a
  store of future states, since the futures are shared with the coroutines that wait
  for them.
\<close>

record 'r execute_state =
  pending_commands :: "(string \<times> nat) list"
  futures :: "nat \<rightharpoonup> 'r future_state"

text \<open>\<open>del d[k]\<close>: a missing key is a \<open>KeyError\<close>.\<close>

definition dict_del :: "'k \<Rightarrow> ('k \<times> 'v) list \<Rightarrow> error + ('k \<times> 'v) list" where
  "dict_del k d = (if k \<in> fst ` set d then Inr (filter (\<lambda>kv. fst kv \<noteq> k) d) else Inl KeyError)"

text \<open>
  The teardown loop of \<open>Execute.execute_io_queues\<close>, reached when the listener is
  cancelled:
  \<^verbatim>\<open>
  for fqin, fut in cls.pending_commands.items():
      fut.cancel()
      del cls.pending_commands[fqin]
  \<close>
  The iterator over the items remembers the size of the dict when it is created; each
  \<open>next\<close> first compares it with the present size and raises \<open>RuntimeError\<close>
  (dictionary changed size during iteration) if they differ, and only then yields the
  next item or stops. \<open>used\<close> is the remembered size and the list argument holds the
  items not yet yielded.
\<close>

fun teardown_loop ::
  "nat \<Rightarrow> (string \<times> nat) list \<Rightarrow> 'r execute_state \<Rightarrow> error option \<times> 'r execute_state" where
  "teardown_loop used [] st =
     (if length (pending_commands st) \<noteq> used then (Some RuntimeError, st) else (None, st))"
| "teardown_loop used ((fqin, fut) # rest) st =
     (if length (pending_commands st) \<noteq> used then (Some RuntimeError, st)
      else
        (let st1 = st\<lparr>futures := (case futures st fut of
                                      None \<Rightarrow> futures st
                                    | Some f \<Rightarrow> (futures st)(fut \<mapsto> future_cancel f))\<rparr>
         in case dict_del fqin (pending_commands st1) of
              Inl e \<Rightarrow> (Some e, st1)
            | Inr d \<Rightarrow> teardown_loop used rest (st1\<lparr>pending_commands := d\<rparr>)))"

definition teardown :: "'r execute_state \<Rightarrow> error option \<times> 'r execute_state" where
  "teardown st = teardown_loop (length (pending_commands st)) (pending_commands st) st"

section \<open>External codecs\<close>

text \<open>
  The library functions the channel calls, as parameters of the model:
  \<open>str.encode\<close> and \<open>bytes.decode\<close> (UTF-8), the module-level \<open>encode\<close> and \<open>decode\<close>
  (msgpack, which may raise), \<open>zlib.compress(data, level)\<close> and \<open>zlib.decompress\<close>, and
  the subtraction of floats.
\<close>

record 'v extern =
  str_encode :: "string \<Rightarrow> bytes"
  bytes_decode :: "bytes \<Rightarrow> error + string"
  encode :: "'v \<Rightarrow> error + bytes"
  decode :: "bytes \<Rightarrow> error + 'v"
  zlib_compress :: "bytes \<Rightarrow> nat \<Rightarrow> bytes"
  zlib_decompress :: "bytes \<Rightarrow> error + bytes"
  float_sub :: "64 word \<Rightarrow> 64 word \<Rightarrow> 64 word"

section \<open>split_data\<close>

text \<open>
  \<^verbatim>\<open>
  def split_data(data, size=1024):
      data_view, data_len, start = memoryview(data), len(data), 0
      while start < data_len:
          end = min(start + size, data_len)
          yield data_view[start:end]
          start = end
  \<close>
  The slices yielded so far are collected in \<open>acc\<close>. With \<open>size = 0\<close> and non-empty
  data the loop never ends, and the value is \<open>None\<close>.
\<close>

partial_function (option) split_loop :: "bytes \<Rightarrow> nat \<Rightarrow> nat \<Rightarrow> bytes list \<Rightarrow> bytes list option" where
  [code]: "split_loop data sz start acc =
     (if start < length data
      then split_loop data sz (min (start + sz) (length data))
             (acc @ [take (min (start + sz) (length data) - start) (drop start data)])
      else Some acc)"

definition split_data :: "bytes \<Rightarrow> nat \<Rightarrow> bytes list option" where
  "split_data data sz = split_loop data sz 0 []"

section \<open>Channel\<close>

text \<open>
  An item of the outgoing queue is a tuple of byte strings (\<open>send\<close> puts
  \<open>(header, name, part)\<close> and \<open>(header, name)\<close>) or a single byte string (\<open>_send_ack\<close>
  puts the header). \<open>_send_writer\<close> writes the parts of a tuple one after the other.
\<close>

datatype queue_item = Parts "bytes list" | Data bytes

definition item_bytes :: "queue_item \<Rightarrow> bytes" where
  "item_bytes i = (case i of Parts ps \<Rightarrow> concat ps | Data d \<Rightarrow> d)"

definition written :: "queue_item list \<Rightarrow> bytes" where
  "written q = concat (map item_bytes q)"

text \<open>
  The state shared by the channels of a process: the thread-local uid counter, the
  outgoing queue \<open>io_queues.send\<close>, the incoming queues \<open>io_queues.receive\<close> (a
  \<open>defaultdict\<close> of queues by channel name) and \<open>Channel.acknowledgements\<close>, each
  acknowledgement future by its state. The table holds its futures weakly; an entry
  that is dropped because nobody waits for the future any more is not modelled.
\<close>

record 'v world =
  uid_state :: uid_local
  io_send :: "queue_item list"
  io_receive :: "string \<rightharpoonup> 'v list"
  acknowledgements :: "Uid \<rightharpoonup> (Uid \<times> 64 word) future_state"

text \<open>
  How a coroutine leaves the part of it that is modelled: it returns, it raises, or it
  is suspended on the acknowledgement future of a uid.
\<close>

datatype 'r outcome = Returned 'r | Raised error | Awaiting Uid

definition Channel_chunk_size :: nat where
  "Channel_chunk_size = 0x8000"

text \<open>The loop of \<open>Channel.send\<close> over the parts of the encoded data.\<close>

fun send_parts ::
  "'v extern \<Rightarrow> Uid \<Rightarrow> string \<Rightarrow> nat \<Rightarrow> bytes list \<Rightarrow> queue_item list
     \<Rightarrow> error option \<times> queue_item list" where
  "send_parts cd uid name compress [] q = (None, q)"
| "send_parts cd uid name compress (part # parts) q =
     (let part' = (if compress \<noteq> 0 then zlib_compress cd part compress else part)
      in case encode_header (str_encode cd) uid (Some name) (Some part')
                \<lparr>eom = False, send_ack = False, recv_ack = False, compression = (compress \<noteq> 0)\<rparr> of
           Inl e \<Rightarrow> (Some e, q)
         | Inr header \<Rightarrow>
             send_parts cd uid name compress parts (q @ [Parts [header, str_encode cd name, part']]))"

text \<open>
  \<open>Channel.send(data, ack, compress)\<close> on the channel \<open>name\<close> with the chunk size
  \<open>chunk_size\<close>, up to the point where it returns, raises or awaits the
  acknowledgement future. \<open>None\<close> stands for a call that never gets there.
\<close>

definition Channel_send ::
  "'v extern \<Rightarrow> thread \<Rightarrow> 64 word \<Rightarrow> nat \<Rightarrow> string \<Rightarrow> 'v \<Rightarrow> bool \<Rightarrow> nat \<Rightarrow> 'v world
     \<Rightarrow> ('v world \<times> unit outcome) option" where
  "Channel_send cd thr now chunk_size name data ack compress w =
     (case Uid_init thr now (uid_state w) None None None None None of
        Inl e \<Rightarrow> Some (w\<lparr>uid_state := snd (create_uid thr now (uid_state w))\<rparr>, Raised e)
      | Inr (uid, l') \<Rightarrow>
          (let w1 = w\<lparr>uid_state := l'\<rparr>
           in case encode cd data of
                Inl e \<Rightarrow> Some (w1, Raised e)
              | Inr encoded_data \<Rightarrow>
                  (case split_data encoded_data chunk_size of
                     None \<Rightarrow> None
                   | Some parts \<Rightarrow>
                       (case send_parts cd uid name compress parts (io_send w1) of
                          (Some e, q) \<Rightarrow> Some (w1\<lparr>io_send := q\<rparr>, Raised e)
                        | (None, q) \<Rightarrow>
                            (case encode_header (str_encode cd) uid (Some name) None
                                    \<lparr>eom = True, send_ack = ack, recv_ack = False,
                                     compression = False\<rparr> of
                               Inl e \<Rightarrow> Some (w1\<lparr>io_send := q\<rparr>, Raised e)
                             | Inr header \<Rightarrow>
                                 (let w2 = w1\<lparr>io_send := q @ [Parts [header, str_encode cd name]]\<rparr>
                                  in if ack
                                     then Some (w2\<lparr>acknowledgements :=
                                                     (acknowledgements w2)(uid \<mapsto> Pending)\<rparr>,
                                                Awaiting uid)
                                     else Some (w2, Returned ())))))))"

text \<open>\<open>Channel._send_ack(io_queues, uid)\<close>: no channel name, no data.\<close>

definition Channel_send_ack :: "'v extern \<Rightarrow> Uid \<Rightarrow> 'v world \<Rightarrow> error + 'v world" where
  "Channel_send_ack cd uid w =
     (case encode_header (str_encode cd) uid None None
             \<lparr>eom = True, send_ack = False, recv_ack = True, compression = False\<rparr> of
        Inl e \<Rightarrow> Inl e
      | Inr header \<Rightarrow> Inr (w\<lparr>io_send := io_send w @ [Data header]\<rparr>))"

text \<open>
  \<open>reader.readexactly(n)\<close> on a stream that ends after the given bytes: the bytes read
  and the rest of the stream, or \<open>IncompleteReadError\<close>.
\<close>

definition readexactly :: "nat \<Rightarrow> bytes \<Rightarrow> error + (bytes \<times> bytes)" where
  "readexactly n s = (if length s < n then Inl IncompleteReadError else Inr (take n s, drop n s))"

text \<open>
  The first part of \<open>Channel._receive_single_message\<close>: the header is read and
  decoded, then the channel name if its length is not zero, then the data if its length
  is not zero, which is decompressed if flagged and appended to the buffer of the uid.
  The result is the uid, the flags, the length and the value of the channel name, the
  length of the data, the buffer and the rest of the stream.
\<close>

definition read_frame ::
  "'v extern \<Rightarrow> (Uid \<rightharpoonup> bytes) \<Rightarrow> bytes
     \<Rightarrow> error + (Uid \<times> ChunkFlags \<times> int \<times> string option \<times> int \<times> (Uid \<rightharpoonup> bytes) \<times> bytes)" where
  "read_frame cd buffer stream =
     (case readexactly (HEADER_SIZE + 16) stream of
        Inl e \<Rightarrow> Inl e
      | Inr (raw_header, s1) \<Rightarrow>
     (case decode_header raw_header of
        Inl e \<Rightarrow> Inl e
      | Inr (uid, flags, channel_name_length, data_length) \<Rightarrow>
     (case (if channel_name_length \<noteq> 0
            then (case readexactly (nat channel_name_length) s1 of
                    Inl e \<Rightarrow> Inl e
                  | Inr (nb, s2) \<Rightarrow>
                      (case bytes_decode cd nb of Inl e \<Rightarrow> Inl e | Inr n \<Rightarrow> Inr (Some n, s2)))
            else Inr (None, s1)) of
        Inl e \<Rightarrow> Inl e
      | Inr (channel_name, s2) \<Rightarrow>
     (case (if data_length \<noteq> 0
            then (case readexactly (nat data_length) s2 of
                    Inl e \<Rightarrow> Inl e
                  | Inr (part, s3) \<Rightarrow>
                      (case (if compression flags then zlib_decompress cd part else Inr part) of
                         Inl e \<Rightarrow> Inl e
                       | Inr part' \<Rightarrow>
                           Inr (buffer(uid \<mapsto> (case buffer uid of None \<Rightarrow> [] | Some b \<Rightarrow> b) @ part'),
                                s3)))
            else Inr (buffer, s2)) of
        Inl e \<Rightarrow> Inl e
      | Inr (buffer', s3) \<Rightarrow>
          Inr (uid, flags, channel_name_length, channel_name, data_length, buffer', s3)))))"

text \<open>\<open>io_queues[channel_name].put(msg)\<close>; a queue that does not exist yet is created.\<close>

definition queue_put :: "string \<Rightarrow> 'v \<Rightarrow> (string \<rightharpoonup> 'v list) \<Rightarrow> (string \<rightharpoonup> 'v list)" where
  "queue_put name msg qs = qs(name \<mapsto> (case qs name of None \<Rightarrow> [] | Some q \<Rightarrow> q) @ [msg])"

text \<open>
  \<open>Channel._receive_single_message(io_queues, reader, buffer)\<close>; \<open>now\<close> is the reading
  of \<open>time.time()\<close>. After the frame is read: the acknowledgement is sent if
  \<open>send_ack\<close> is set; on \<open>eom\<close> the buffer of the uid, if there is one and the frame
  has a channel name, is decoded, put into the queue of the channel and deleted, and the
  acknowledgement future of the uid, if there is one and \<open>recv_ack\<close> is set, gets its
  result. The state is returned also when an exception is raised.
\<close>

definition receive_single_message ::
  "'v extern \<Rightarrow> 64 word \<Rightarrow> 'v world \<times> (Uid \<rightharpoonup> bytes) \<times> bytes
     \<Rightarrow> error option \<times> ('v world \<times> (Uid \<rightharpoonup> bytes) \<times> bytes)" where
  "receive_single_message cd now s =
     (case s of (w, buffer, stream) \<Rightarrow>
     (case read_frame cd buffer stream of
        Inl e \<Rightarrow> (Some e, s)
      | Inr (uid, flags, channel_name_length, channel_name, data_length, buffer1, stream1) \<Rightarrow>
     (case (if send_ack flags then Channel_send_ack cd uid w else Inr w) of
        Inl e \<Rightarrow> (Some e, (w, buffer1, stream1))
      | Inr w1 \<Rightarrow>
          if eom flags
          then
            (case (if buffer1 uid \<noteq> None \<and> channel_name_length \<noteq> 0
                   then (case decode cd (the (buffer1 uid)) of
                           Inl e \<Rightarrow> Inl e
                         | Inr msg \<Rightarrow>
                             Inr (w1\<lparr>io_receive := queue_put (the channel_name) msg (io_receive w1)\<rparr>,
                                  buffer1(uid := None)))
                   else Inr (w1, buffer1)) of
               Inl e \<Rightarrow> (Some e, (w1, buffer1, stream1))
             | Inr (w2, buffer2) \<Rightarrow>
                 (case acknowledgements w2 uid of
                    None \<Rightarrow> (None, (w2, buffer2, stream1))
                  | Some ack_future \<Rightarrow>
                      if recv_ack flags
                      then (case ack_future of
                              Pending \<Rightarrow>
                                (None,
                                 (w2\<lparr>acknowledgements := (acknowledgements w2)
                                        (uid \<mapsto> Finished_result (uid, float_sub cd now (uid_time uid)))\<rparr>,
                                  buffer2, stream1))
                            | _ \<Rightarrow> (Some InvalidStateError, (w2, buffer2, stream1)))
                      else (None, (w2, buffer2, stream1))))
          else (None, (w1, buffer1, stream1)))))"

text \<open>
  The loop \<open>while True: await cls._receive_single_message(io_queues, reader, buffer)\<close>
  of \<open>Channel._receive_reader\<close>: it ends only with an exception.
\<close>

partial_function (option) receive_loop ::
  "'v extern \<Rightarrow> 64 word \<Rightarrow> 'v world \<times> (Uid \<rightharpoonup> bytes) \<times> bytes
     \<Rightarrow> (error \<times> ('v world \<times> (Uid \<rightharpoonup> bytes) \<times> bytes)) option" where
  [code]: "receive_loop cd now s =
     (case receive_single_message cd now s of
        (None, s') \<Rightarrow> receive_loop cd now s'
      | (Some e, s') \<Rightarrow> Some (e, s'))"

text \<open>
  \<open>Channel._receive_reader(io_queues, reader)\<close> on a stream that ends: the buffer
  starts empty, \<open>IncompleteReadError\<close> ends the reader normally and any other exception
  is raised again.
\<close>

definition receive_reader ::
  "'v extern \<Rightarrow> 64 word \<Rightarrow> 'v world \<Rightarrow> bytes \<Rightarrow> ('v world \<times> unit outcome) option" where
  "receive_reader cd now w stream =
     (case receive_loop cd now (w, Map.empty, stream) of
        None \<Rightarrow> None
      | Some (e, (w', buffer, stream')) \<Rightarrow>
          Some (w', if e = IncompleteReadError then Returned () else Raised e))"

text \<open>
  A stand-in for the libraries, to run the model on examples: a message is a byte string
  that encodes as itself, channel names are ASCII, compression puts one byte in front
  of the data and floats are subtracted as their patterns. A thread, a reading of the
  clock, and the state of a process that has not sent or received anything.
\<close>

definition example_codec :: "bytes extern" where
  "example_codec =
     \<lparr>str_encode = map (\<lambda>c. of_nat (of_char c)),
      bytes_decode = (\<lambda>b. Inr (map (\<lambda>x. char_of (unat x)) b)),
      encode = Inr,
      decode = Inr,
      zlib_compress = (\<lambda>b level. 0 # b),
      zlib_decompress = (\<lambda>b. case b of [] \<Rightarrow> Inl ZlibError | x # xs \<Rightarrow> Inr xs),
      float_sub = (\<lambda>a b. a - b)\<rparr>"

definition example_thread :: thread where
  "example_thread = \<lparr>thread_ident = 9, thread_addr = 7\<rparr>"

definition example_now :: "64 word" where
  "example_now = 0x3FF8000000000000"

definition empty_world :: "bytes world" where
  "empty_world =
     \<lparr>uid_state = \<lparr>tl_tid = 0, tl_id = 0, tl_uid = None\<rparr>,
      io_send = [], io_receive = Map.empty, acknowledgements = Map.empty\<rparr>"

section \<open>Properties of ChunkFlags\<close>

lemma ChunkFlags_encode_range: "0 \<le> ChunkFlags_encode f \<and> ChunkFlags_encode f < 16"
  by (cases "eom f"; cases "send_ack f"; cases "recv_ack f"; cases "compression f")
     (simp_all add: ChunkFlags_encode_def mask_value_def masks_eom_def masks_send_ack_def
        masks_recv_ack_def masks_compression_def)

lemma ChunkFlags_roundtrip_aux: "ChunkFlags_decode (ChunkFlags_encode f) = f"
  by (cases f; cases "eom f"; cases "send_ack f"; cases "recv_ack f"; cases "compression f")
     (simp_all add: ChunkFlags_encode_def ChunkFlags_decode_def mask_value_def unmask_value_def
        masks_eom_def masks_send_ack_def masks_recv_ack_def masks_compression_def)

text \<open>
  Claim C8. For every subset of the flags eom, send_ack, recv_ack and compression,
  decoding the packed integer produced by encoding the subset gives back exactly that
  subset.
\<close>

theorem ChunkFlags_roundtrip: "ChunkFlags_decode (ChunkFlags_encode f) = f"
  by (fact ChunkFlags_roundtrip_aux)

section \<open>Properties of the struct module\<close>

lemma length_be_bytes [simp]: "length (be_bytes k v) = k"
  by (induction k arbitrary: v) simp_all

lemma be_int_snoc: "be_int (bs @ [b]) = be_int bs * 256 + uint b"
  by (simp add: be_int_def)

lemma be_int_be_bytes_mod: "be_int (be_bytes k v) = v mod 256 ^ k"
proof (induction k arbitrary: v)
  case 0
  show ?case by (simp add: be_int_def)
next
  case (Suc k)
  have "uint (word_of_int v :: byte) = v mod 256"
    by (simp add: uint_word_of_int)
  then have "be_int (be_bytes (Suc k) v) = (v div 256) mod 256 ^ k * 256 + v mod 256"
    by (simp add: be_int_snoc Suc.IH)
  also have "\<dots> = v mod 256 ^ Suc k"
    using zmod_zmult2_eq [of "256 ^ k" v 256] by simp
  finally show ?case .
qed

lemma be_int_be_bytes: "0 \<le> v \<Longrightarrow> v < 2 ^ (8 * k) \<Longrightarrow> be_int (be_bytes k v) = v"
proof -
  assume a: "0 \<le> v" "v < 2 ^ (8 * k)"
  have "(256::int) ^ k = 2 ^ (8 * k)"
    by (simp add: power_mult)
  with a show ?thesis
    by (simp add: be_int_be_bytes_mod)
qed

lemma be_int_range: "0 \<le> be_int bs \<and> be_int bs < 256 ^ length bs"
proof (induction bs rule: rev_induct)
  case Nil
  show ?case by (simp add: be_int_def)
next
  case (snoc b bs)
  have "uint b < 256" using uint_bounded [of b] by simp
  moreover have "0 \<le> uint b" by simp
  moreover have "be_int bs + 1 \<le> 256 ^ length bs" using snoc by simp
  then have "(be_int bs + 1) * 256 \<le> 256 ^ length bs * 256" by (simp only: mult_right_mono)
  ultimately show ?case using snoc by (simp add: be_int_snoc algebra_simps)
qed

lemma be_bytes_be_int: "be_bytes (length bs) (be_int bs) = bs"
proof (induction bs rule: rev_induct)
  case Nil
  show ?case by simp
next
  case (snoc b bs)
  have d: "(be_int bs * 256 + uint b) div 256 = be_int bs"
    using uint_bounded [of b] by simp
  have "(be_int bs * 256 + uint b) mod 256 = uint b"
    using uint_bounded [of b] by simp
  moreover have "uint (word_of_int (be_int bs * 256 + uint b) :: byte)
      = (be_int bs * 256 + uint b) mod 2 ^ LENGTH(8)"
    by (rule uint_word_of_int)
  ultimately have "uint (word_of_int (be_int bs * 256 + uint b) :: byte) = uint b"
    by (simp del: of_int_add of_int_mult)
  then have m: "(word_of_int (be_int bs * 256 + uint b) :: byte) = b"
    by (rule word_uint_eqI)
  have "be_bytes (length (bs @ [b])) (be_int (bs @ [b]))
      = be_bytes (Suc (length bs)) (be_int bs * 256 + uint b)"
    by (simp add: be_int_snoc)
  also have "\<dots> = be_bytes (length bs) ((be_int bs * 256 + uint b) div 256)
      @ [word_of_int (be_int bs * 256 + uint b)]"
    by (simp only: be_bytes.simps)
  also have "\<dots> = bs @ [b]"
    by (simp only: d m snoc)
  finally show ?case .
qed

lemma unpack_d_pack_d: "unpack_d (pack_d t) = t"
proof -
  have "uint t < 2 ^ (8 * 8)" using uint_bounded [of t] by simp
  then show ?thesis by (simp add: unpack_d_def pack_d_def be_int_be_bytes)
qed

lemma pack_uint_length: "pack_uint k v = Inr bs \<Longrightarrow> length bs = k"
  by (auto simp: pack_uint_def split: if_splits)

lemma pack_uint_be_int: "pack_uint k v = Inr bs \<Longrightarrow> be_int bs = v"
  by (auto simp: pack_uint_def be_int_be_bytes split: if_splits)

lemma pack_uint_of_be_int: "length bs = k \<Longrightarrow> pack_uint k (be_int bs) = Inr bs"
  using be_int_range [of bs] be_bytes_be_int [of bs]
  by (simp add: pack_uint_def power_mult)

section \<open>Properties of Uid\<close>

lemma pack_uid_parts:
  assumes "pack_uid t i ti s = Inr b"
  obtains bi bti bs where "b = pack_d t @ bi @ bti @ bs"
    and "pack_uint 8 i = Inr bi" and "pack_uint 8 ti = Inr bti" and "pack_uint 8 s = Inr bs"
  using assms by (auto simp: pack_uid_def split: sum.splits)

lemma pack_uid_length: "pack_uid t i ti s = Inr b \<Longrightarrow> length b = 32"
  by (erule pack_uid_parts) (auto simp: pack_d_def dest!: pack_uint_length)

lemma unpack_uid_pack_uid:
  assumes "pack_uid t i ti s = Inr b"
  shows "unpack_uid b = Inr (t, i, ti, s)"
proof -
  from assms obtain bi bti bs where b: "b = pack_d t @ bi @ bti @ bs"
    and p: "pack_uint 8 i = Inr bi" "pack_uint 8 ti = Inr bti" "pack_uint 8 s = Inr bs"
    by (rule pack_uid_parts)
  have l: "length (pack_d t) = 8" "length bi = 8" "length bti = 8" "length bs = 8"
    using p by (simp_all add: pack_d_def pack_uint_length)
  have v: "be_int bi = i" "be_int bti = ti" "be_int bs = s"
    using p by (simp_all add: pack_uint_be_int)
  show ?thesis
    by (simp add: unpack_uid_def Uid_fmt_size_def b l v unpack_d_pack_d)
qed

lemma pack_uid_unpack_uid:
  assumes "unpack_uid b = Inr (t, i, ti, s)"
  shows "pack_uid t i ti s = Inr b"
proof -
  from assms have len: "length b = 32"
    by (auto simp: unpack_uid_def Uid_fmt_size_def split: if_splits)
  from assms len have f: "t = unpack_d (take 8 b)" "i = be_int (take 8 (drop 8 b))"
    "ti = be_int (take 8 (drop 16 b))" "s = be_int (take 8 (drop 24 b))"
    by (simp_all add: unpack_uid_def Uid_fmt_size_def)
  have l8: "length (take 8 b) = 8" "length (take 8 (drop 8 b)) = 8"
    "length (take 8 (drop 16 b)) = 8" "length (take 8 (drop 24 b)) = 8"
    using len by simp_all
  have r: "be_int (take 8 b) < 2 ^ 64"
    using be_int_range [of "take 8 b"] l8(1) by (simp add: power_mult [symmetric])
  have "uint (word_of_int (be_int (take 8 b)) :: 64 word) = be_int (take 8 b)"
    using be_int_range [of "take 8 b"] r by (simp add: uint_word_of_int take_bit_eq_mod)
  then have d: "pack_d t = take 8 b"
    using be_bytes_be_int [of "take 8 b"] l8(1) by (simp add: f(1) pack_d_def unpack_d_def)
  have "take 8 b @ take 8 (drop 8 b) @ take 8 (drop 16 b) @ take 8 (drop 24 b) = b"
  proof -
    have "take 8 (drop 24 b) = drop 24 b" using len by simp
    moreover have "take 8 (drop 16 b) @ drop 24 b = drop 16 b"
      using append_take_drop_id [of 8 "drop 16 b"] by simp
    moreover have "take 8 (drop 8 b) @ drop 16 b = drop 8 b"
      using append_take_drop_id [of 8 "drop 8 b"] by simp
    ultimately show ?thesis by simp
  qed
  moreover have "pack_uint 8 (be_int (take 8 (drop 8 b))) = Inr (take 8 (drop 8 b))"
    using l8(2) by (rule pack_uint_of_be_int)
  moreover have "pack_uint 8 (be_int (take 8 (drop 16 b))) = Inr (take 8 (drop 16 b))"
    using l8(3) by (rule pack_uint_of_be_int)
  moreover have "pack_uint 8 (be_int (take 8 (drop 24 b))) = Inr (take 8 (drop 24 b))"
    using l8(4) by (rule pack_uint_of_be_int)
  ultimately show ?thesis
    by (simp add: pack_uid_def f(2-4) d)
qed

lemma Uid_init_consistent:
  assumes "Uid_init thr now l t i ti s b = Inr (u, l')"
    and "t = None \<or> i = None \<or> ti = None \<or> s = None \<or> b = None \<or> b = Some []"
  shows "pack_uid (uid_time u) (uid_id u) (uid_tid u) (uid_seq u) = Inr (uid_bytes u)"
proof (cases "case b of None \<Rightarrow> False | Some bs \<Rightarrow> bs \<noteq> []")
  case False
  with assms(1) show ?thesis
    by (auto simp: Uid_init_def Let_def split: option.splits sum.splits prod.splits)
next
  case True
  then obtain bs where b: "b = Some bs" "bs \<noteq> []"
    by (auto split: option.splits)
  with assms(2) have n: "t = None \<or> i = None \<or> ti = None \<or> s = None"
    by simp
  with assms(1) b have "unpack_uid bs = Inr (uid_time u, uid_id u, uid_tid u, uid_seq u)"
    and "uid_bytes u = bs"
    by (auto simp: Uid_init_def Let_def split: option.splits sum.splits)
  then show ?thesis
    by (simp add: pack_uid_unpack_uid)
qed

text \<open>
  Claim C7. For any UID \<open>u\<close> that the constructor builds from its four components,
  from serialized bytes or freshly for the calling thread, decoding the bytes produced by
  encoding \<open>u\<close> succeeds and yields a UID with the same timestamp, process identity,
  thread identity and sequence number (and the same cached bytes); the thread-local
  counter is not touched.
\<close>

theorem Uid_roundtrip:
  assumes "Uid_init thr now l t i ti s b = Inr (u, l')"
    and "t = None \<or> i = None \<or> ti = None \<or> s = None \<or> b = None \<or> b = Some []"
  shows "Uid_msgpack_decode thr2 now2 l2 (Uid_msgpack_encode u) = Inr (u, l2)"
proof -
  have p: "pack_uid (uid_time u) (uid_id u) (uid_tid u) (uid_seq u) = Inr (uid_bytes u)"
    using assms by (rule Uid_init_consistent)
  then have "length (uid_bytes u) = 32"
    by (rule pack_uid_length)
  then have ne: "uid_bytes u \<noteq> []"
    by auto
  from p have "unpack_uid (uid_bytes u) = Inr (uid_time u, uid_id u, uid_tid u, uid_seq u)"
    by (rule unpack_uid_pack_uid)
  with ne show ?thesis
    by (simp add: Uid_msgpack_decode_def Uid_msgpack_encode_def Uid_init_def)
qed

theorem Uid_roundtrip_witness:
  "Uid_init \<lparr>thread_ident = 9, thread_addr = 7\<rparr> 0 \<lparr>tl_tid = 0, tl_id = 0, tl_uid = None\<rparr>
     (Some 0x3FF8000000000000) (Some 7) (Some 9) (Some 1) None
   = Inr (\<lparr>uid_time = 0x3FF8000000000000, uid_id = 7, uid_tid = 9, uid_seq = 1,
           uid_bytes = [0x3F, 0xF8, 0, 0, 0, 0, 0, 0, 0, 0, 0, 0, 0, 0, 0, 7,
                        0, 0, 0, 0, 0, 0, 0, 9, 0, 0, 0, 0, 0, 0, 0, 1]\<rparr>,
          \<lparr>tl_tid = 0, tl_id = 0, tl_uid = None\<rparr>)
   \<and> Uid_msgpack_decode \<lparr>thread_ident = 9, thread_addr = 7\<rparr> 0 \<lparr>tl_tid = 0, tl_id = 0, tl_uid = None\<rparr>
       (Uid_msgpack_encode
         \<lparr>uid_time = 0x3FF8000000000000, uid_id = 7, uid_tid = 9, uid_seq = 1,
          uid_bytes = [0x3F, 0xF8, 0, 0, 0, 0, 0, 0, 0, 0, 0, 0, 0, 0, 0, 7,
                       0, 0, 0, 0, 0, 0, 0, 9, 0, 0, 0, 0, 0, 0, 0, 1]\<rparr>)
   = Inr (\<lparr>uid_time = 0x3FF8000000000000, uid_id = 7, uid_tid = 9, uid_seq = 1,
           uid_bytes = [0x3F, 0xF8, 0, 0, 0, 0, 0, 0, 0, 0, 0, 0, 0, 0, 0, 7,
                        0, 0, 0, 0, 0, 0, 0, 9, 0, 0, 0, 0, 0, 0, 0, 1]\<rparr>,
          \<lparr>tl_tid = 0, tl_id = 0, tl_uid = None\<rparr>)"
proof -
  have h: "Uid_init \<lparr>thread_ident = 9, thread_addr = 7\<rparr> 0 \<lparr>tl_tid = 0, tl_id = 0, tl_uid = None\<rparr>
     (Some 0x3FF8000000000000) (Some 7) (Some 9) (Some 1) None
   = Inr (\<lparr>uid_time = 0x3FF8000000000000, uid_id = 7, uid_tid = 9, uid_seq = 1,
           uid_bytes = [0x3F, 0xF8, 0, 0, 0, 0, 0, 0, 0, 0, 0, 0, 0, 0, 0, 7,
                        0, 0, 0, 0, 0, 0, 0, 9, 0, 0, 0, 0, 0, 0, 0, 1]\<rparr>,
          \<lparr>tl_tid = 0, tl_id = 0, tl_uid = None\<rparr>)"
    by code_simp
  show ?thesis
    using h Uid_roundtrip [OF h, of "\<lparr>thread_ident = 9, thread_addr = 7\<rparr>" 0
        "\<lparr>tl_tid = 0, tl_id = 0, tl_uid = None\<rparr>"]
    by simp
qed

lemma Uid_init_bytes:
  "b \<noteq> [] \<Longrightarrow>
   Uid_init thr now l None None None None (Some b)
     = (case Uid_of_bytes b of Inl e \<Rightarrow> Inl e | Inr u \<Rightarrow> Inr (u, l))"
  by (simp add: Uid_init_def Uid_of_bytes_def split: sum.splits)

lemma Uid_of_bytes_consistent:
  "pack_uid (uid_time u) (uid_id u) (uid_tid u) (uid_seq u) = Inr (uid_bytes u)
   \<Longrightarrow> Uid_of_bytes (uid_bytes u) = Inr u"
  by (simp add: Uid_of_bytes_def unpack_uid_pack_uid)

lemma Uid_of_bytes_total: "length b = 32 \<Longrightarrow> \<exists>u. Uid_of_bytes b = Inr u \<and> uid_bytes u = b"
  by (simp add: Uid_of_bytes_def unpack_uid_def Uid_fmt_size_def)

section \<open>Properties of the frame header\<close>

lemma length_md5: "length (md5 m) = 16"
  by (simp add: md5_def Let_def le_bytes32_def split: prod.splits)

lemma pack_header_parts:
  assumes "pack_header ub fl cnl dl = Inr h"
  shows "h = pack_s 32 ub @ be_bytes 8 fl @ be_bytes 2 cnl @ be_bytes 4 dl"
    and "0 \<le> fl \<and> fl < 2 ^ 64" and "0 \<le> cnl \<and> cnl < 2 ^ 16" and "0 \<le> dl \<and> dl < 2 ^ 32"
  using assms by (auto simp: pack_header_def pack_uint_def split: sum.splits if_splits)

lemma length_pack_s: "length (pack_s n bs) = n"
  by (simp add: pack_s_def)

lemma pack_header_length: "pack_header ub fl cnl dl = Inr h \<Longrightarrow> length h = 46"
  by (drule pack_header_parts(1)) (simp add: length_pack_s)

lemma unpack_header_pack_header:
  assumes "pack_header ub fl cnl dl = Inr h"
  shows "unpack_header h = Inr (pack_s 32 ub, fl, cnl, dl)"
proof -
  note p = pack_header_parts [OF assms]
  have "be_int (be_bytes 8 fl) = fl" "be_int (be_bytes 2 cnl) = cnl" "be_int (be_bytes 4 dl) = dl"
    using p(2-4) by (simp_all add: be_int_be_bytes)
  then show ?thesis
    by (simp add: unpack_header_def HEADER_SIZE_def p(1) length_pack_s)
qed

lemma example_uid_consistent:
  "pack_uid (uid_time example_uid) (uid_id example_uid) (uid_tid example_uid) (uid_seq example_uid)
     = Inr (uid_bytes example_uid)"
  by code_simp

lemma example_ack_header_encode:
  "encode_header (\<lambda>s. []) example_uid None None ack_flags = Inr example_ack_header"
  by code_simp

lemma example_ack_header_digest:
  "md5 (take 46 example_ack_header) = drop 46 example_ack_header"
  by code_simp

text \<open>
  Claim C2, as amended. The header is the 32 bytes of the uid (big-endian binary64 time
  and three unsigned 64-bit integers), the flags on 8 bytes, the length of the channel
  name on 2 bytes and the length of the data on 4 bytes, followed by the 16-byte MD5
  digest of these 46 bytes: 62 bytes in all, whatever the data.
\<close>

theorem encode_header_layout:
  assumes "encode_header str_enc uid channel_name data flags = Inr h"
    and "pack_uid (uid_time uid) (uid_id uid) (uid_tid uid) (uid_seq uid) = Inr (uid_bytes uid)"
  shows "length h = HEADER_SIZE + 16 \<and> HEADER_SIZE + 16 = 62
    \<and> take 32 h = pack_d (uid_time uid) @ be_bytes 8 (uid_id uid) @ be_bytes 8 (uid_tid uid)
                     @ be_bytes 8 (uid_seq uid)
    \<and> take 8 (drop 32 h) = be_bytes 8 (ChunkFlags_encode flags)
    \<and> take 2 (drop 40 h)
        = be_bytes 2 (case channel_name of None \<Rightarrow> 0
                      | Some n \<Rightarrow> if n \<noteq> [] then int (length (str_enc n)) else 0)
    \<and> take 4 (drop 42 h) = be_bytes 4 (case data of None \<Rightarrow> 0 | Some d \<Rightarrow> int (length d))
    \<and> drop 46 h = md5 (take 46 h) \<and> length (drop 46 h) = 16"
proof -
  let ?cnl = "case channel_name of None \<Rightarrow> 0
              | Some n \<Rightarrow> if n \<noteq> [] then int (length (str_enc n)) else 0"
  let ?dl = "case data of None \<Rightarrow> 0 | Some d \<Rightarrow> int (length d)"
  from assms(1) obtain hd where hd: "pack_header (uid_bytes uid) (ChunkFlags_encode flags) ?cnl ?dl = Inr hd"
    and h: "h = hd @ md5 hd"
    by (auto simp: encode_header_def Let_def split: sum.splits)
  have l32: "length (uid_bytes uid) = 32"
    using assms(2) by (rule pack_uid_length)
  then have s: "pack_s 32 (uid_bytes uid) = uid_bytes uid"
    by (simp add: pack_s_def)
  obtain bi bti bs where u: "uid_bytes uid = pack_d (uid_time uid) @ bi @ bti @ bs"
    and p: "pack_uint 8 (uid_id uid) = Inr bi" "pack_uint 8 (uid_tid uid) = Inr bti"
      "pack_uint 8 (uid_seq uid) = Inr bs"
    using assms(2) by (rule pack_uid_parts)
  have b: "bi = be_bytes 8 (uid_id uid)" "bti = be_bytes 8 (uid_tid uid)" "bs = be_bytes 8 (uid_seq uid)"
    using p by (auto simp: pack_uint_def split: if_splits)
  have hd': "hd = uid_bytes uid @ be_bytes 8 (ChunkFlags_encode flags) @ be_bytes 2 ?cnl @ be_bytes 4 ?dl"
    using pack_header_parts(1) [OF hd] s by simp
  have lhd: "length hd = 46"
    using hd by (rule pack_header_length)
  show ?thesis
    unfolding h
    apply (simp add: lhd length_md5 HEADER_SIZE_def)
    apply (simp add: hd' l32)
    apply (simp add: u b)
    done
qed

theorem encode_header_layout_witness:
  "encode_header (\<lambda>s. []) example_uid None None ack_flags = Inr example_ack_header
   \<and> pack_uid (uid_time example_uid) (uid_id example_uid) (uid_tid example_uid) (uid_seq example_uid)
       = Inr (uid_bytes example_uid)
   \<and> length example_ack_header = 62
   \<and> take 8 (drop 32 example_ack_header) = be_bytes 8 (ChunkFlags_encode ack_flags)
   \<and> drop 46 example_ack_header = md5 (take 46 example_ack_header)"
proof -
  note t = encode_header_layout [OF example_ack_header_encode example_uid_consistent]
  from t have "length example_ack_header = 62"
    by simp
  moreover from t have "take 8 (drop 32 example_ack_header) = be_bytes 8 (ChunkFlags_encode ack_flags)"
    by blast
  moreover from t have "drop 46 example_ack_header = md5 (take 46 example_ack_header)"
    by blast
  ultimately show ?thesis
    using example_ack_header_encode example_uid_consistent by blast
qed

text \<open>
  The layout of claim C2 as it is stated (24 + 2 + 2 + 4 bytes and the digest) does not
  hold: the uid of the example serializes to 32 bytes, its acknowledgement header has
  62 bytes, and the flags (value 5) end at byte 39.
\<close>

theorem encode_header_layout_counterexample:
  "encode_header (\<lambda>s. []) example_uid None None ack_flags = Inr example_ack_header
   \<and> length example_ack_header \<noteq> 24 + 2 + 2 + 4 + 16
   \<and> length (Uid_msgpack_encode example_uid) \<noteq> 24
   \<and> take 2 (drop 24 example_ack_header) \<noteq> be_bytes 2 (ChunkFlags_encode ack_flags)
   \<and> example_ack_header ! 39 = 5"
proof -
  have "length example_ack_header \<noteq> 24 + 2 + 2 + 4 + 16
   \<and> length (Uid_msgpack_encode example_uid) \<noteq> 24
   \<and> take 2 (drop 24 example_ack_header) \<noteq> be_bytes 2 (ChunkFlags_encode ack_flags)
   \<and> example_ack_header ! 39 = 5"
    by code_simp
  then show ?thesis
    using example_ack_header_encode by blast
qed

lemma decode_header_digest_mismatch:
  "decode_header header = Inl AssertionError
   \<longleftrightarrow> md5 (take (length header - 16) header) \<noteq> drop (length header - 16) header"
  by (auto simp: decode_header_def unpack_header_def Uid_of_bytes_def unpack_uid_def
      split: sum.splits prod.splits if_splits)

lemma decode_header_succeeds_iff:
  "(\<exists>r. decode_header header = Inr r)
   \<longleftrightarrow> length header = HEADER_SIZE + 16
       \<and> md5 (take (length header - 16) header) = drop (length header - 16) header"
  by (auto simp: decode_header_def unpack_header_def Uid_of_bytes_def unpack_uid_def
      HEADER_SIZE_def Uid_fmt_size_def split: sum.splits prod.splits if_splits)

text \<open>
  Claim C6, as amended. On a header of the fixed size (62 bytes), \<open>_decode_header\<close>
  fails with the checksum assertion exactly when the MD5 digest of the first 46 bytes
  differs from the trailing 16 bytes, and when the digest matches it returns the uid
  read from the first 32 bytes, the flags, the channel name length and the data length.
\<close>

theorem decode_header_integrity:
  assumes "length header = HEADER_SIZE + 16"
  shows "(decode_header header = Inl AssertionError \<longleftrightarrow> md5 (take 46 header) \<noteq> drop 46 header)
    \<and> (md5 (take 46 header) = drop 46 header \<longrightarrow>
        decode_header header
          = Inr (\<lparr>uid_time = unpack_d (take 8 header),
                   uid_id = be_int (take 8 (drop 8 header)),
                   uid_tid = be_int (take 8 (drop 16 header)),
                   uid_seq = be_int (take 8 (drop 24 header)),
                   uid_bytes = take 32 header\<rparr>,
                 ChunkFlags_decode (be_int (take 8 (drop 32 header))),
                 be_int (take 2 (drop 40 header)),
                 be_int (take 4 (drop 42 header))))"
proof -
  have l: "length header - 16 = 46" "length header = 62"
    using assms by (simp_all add: HEADER_SIZE_def)
  have t: "take 8 (take 32 header) = take 8 header"
    "take 8 (drop 8 (take 32 header)) = take 8 (drop 8 header)"
    "take 8 (drop 16 (take 32 header)) = take 8 (drop 16 header)"
    "take 8 (drop 24 (take 32 header)) = take 8 (drop 24 header)"
    by (simp_all add: drop_take)
  show ?thesis
    using decode_header_digest_mismatch [of header]
    by (simp add: l decode_header_def unpack_header_def HEADER_SIZE_def Uid_of_bytes_def
        unpack_uid_def Uid_fmt_size_def drop_take t)
qed

theorem decode_header_integrity_witness:
  "length example_ack_header = HEADER_SIZE + 16
   \<and> md5 (take 46 example_ack_header) = drop 46 example_ack_header
   \<and> decode_header example_ack_header = Inr (example_uid, ack_flags, 0, 0)"
proof -
  have l: "length example_ack_header = HEADER_SIZE + 16"
    by (simp add: example_ack_header_def HEADER_SIZE_def)
  have "decode_header example_ack_header
          = Inr (\<lparr>uid_time = unpack_d (take 8 example_ack_header),
                   uid_id = be_int (take 8 (drop 8 example_ack_header)),
                   uid_tid = be_int (take 8 (drop 16 example_ack_header)),
                   uid_seq = be_int (take 8 (drop 24 example_ack_header)),
                   uid_bytes = take 32 example_ack_header\<rparr>,
                 ChunkFlags_decode (be_int (take 8 (drop 32 example_ack_header))),
                 be_int (take 2 (drop 40 example_ack_header)),
                 be_int (take 4 (drop 42 example_ack_header)))"
    using decode_header_integrity [OF l] example_ack_header_digest by simp
  moreover have "\<lparr>uid_time = unpack_d (take 8 example_ack_header),
                   uid_id = be_int (take 8 (drop 8 example_ack_header)),
                   uid_tid = be_int (take 8 (drop 16 example_ack_header)),
                   uid_seq = be_int (take 8 (drop 24 example_ack_header)),
                   uid_bytes = take 32 example_ack_header\<rparr> = example_uid"
    by code_simp
  moreover have "ChunkFlags_decode (be_int (take 8 (drop 32 example_ack_header))) = ack_flags"
    by code_simp
  moreover have "be_int (take 2 (drop 40 example_ack_header)) = 0"
    "be_int (take 4 (drop 42 example_ack_header)) = 0"
    by code_simp+
  ultimately show ?thesis
    using l example_ack_header_digest by simp
qed

text \<open>
  Claim C6 as it is stated fails on an input of another length: the 16 bytes of the MD5
  digest of the empty string are their own trailing 16 bytes and the digest of the
  (empty) rest matches, yet \<open>struct.unpack\<close> rejects the empty header.
\<close>

theorem decode_header_integrity_counterexample:
  "md5 (take (length [212, 29, 140, 217, 143, 0, 178, 4, 233, 128, 9, 152, 236, 248, 66, 126 :: byte] - 16)
          [212, 29, 140, 217, 143, 0, 178, 4, 233, 128, 9, 152, 236, 248, 66, 126])
     = drop (length [212, 29, 140, 217, 143, 0, 178, 4, 233, 128, 9, 152, 236, 248, 66, 126 :: byte] - 16)
          [212, 29, 140, 217, 143, 0, 178, 4, 233, 128, 9, 152, 236, 248, 66, 126]
   \<and> decode_header [212, 29, 140, 217, 143, 0, 178, 4, 233, 128, 9, 152, 236, 248, 66, 126]
       = Inl StructError"
  by code_simp

lemma decode_encode_header:
  assumes "encode_header str_enc uid channel_name data flags = Inr h"
    and "pack_uid (uid_time uid) (uid_id uid) (uid_tid uid) (uid_seq uid) = Inr (uid_bytes uid)"
  shows "decode_header h
    = Inr (uid, flags,
           (case channel_name of None \<Rightarrow> 0
            | Some n \<Rightarrow> if n \<noteq> [] then int (length (str_enc n)) else 0),
           (case data of None \<Rightarrow> 0 | Some d \<Rightarrow> int (length d)))"
proof -
  let ?cnl = "case channel_name of None \<Rightarrow> 0
              | Some n \<Rightarrow> if n \<noteq> [] then int (length (str_enc n)) else 0"
  let ?dl = "case data of None \<Rightarrow> 0 | Some d \<Rightarrow> int (length d)"
  from assms(1) obtain hd where hd: "pack_header (uid_bytes uid) (ChunkFlags_encode flags) ?cnl ?dl = Inr hd"
    and h: "h = hd @ md5 hd"
    by (auto simp: encode_header_def Let_def split: sum.splits)
  have lhd: "length hd = 46"
    using hd by (rule pack_header_length)
  have "length (uid_bytes uid) = 32"
    using assms(2) by (rule pack_uid_length)
  then have s: "pack_s 32 (uid_bytes uid) = uid_bytes uid"
    by (simp add: pack_s_def)
  have u: "unpack_header hd = Inr (uid_bytes uid, ChunkFlags_encode flags, ?cnl, ?dl)"
    using unpack_header_pack_header [OF hd] s by simp
  have "Uid_of_bytes (uid_bytes uid) = Inr uid"
    using assms(2) by (rule Uid_of_bytes_consistent)
  then show ?thesis
    by (simp add: decode_header_def h lhd length_md5 u ChunkFlags_roundtrip_aux)
qed


section \<open>Properties of the command registry\<close>

lemma CommandMeta_new_registers:
  assumes "base mcs \<noteq> None"
  shows "CommandMeta_new mcs name bases (Some m, body)
    = Inr (\<lparr>cls_name = name, cls_bases = bases, cls_module = m, cls_body = body,
              command_name = m @ '':'' @ name\<rparr>,
           mcs\<lparr>commands := (commands mcs)(m @ '':'' @ name \<mapsto>
             \<lparr>cls_name = name, cls_bases = bases, cls_module = m, cls_body = body,
              command_name = m @ '':'' @ name\<rparr>)\<rparr>)"
  using assms by (cases "base mcs") (simp_all add: CommandMeta_new_def Let_def)

text \<open>
  Claim C5, as amended. Once the base class exists, creating a class whose command name
  is already registered is not rejected: the creation succeeds and the new class
  replaces the registered one under that name, every other entry being kept.
\<close>

theorem duplicate_registration_replaces:
  assumes "base mcs \<noteq> None"
    and "commands mcs (m @ '':'' @ name) = Some old"
  shows "\<exists>cls mcs'.
      CommandMeta_new mcs name bases (Some m, body) = Inr (cls, mcs')
      \<and> command_name cls = m @ '':'' @ name \<and> cls_body cls = body
      \<and> commands mcs' (m @ '':'' @ name) = Some cls
      \<and> (\<forall>k. k \<noteq> m @ '':'' @ name \<longrightarrow> commands mcs' k = commands mcs k)
      \<and> base mcs' = base mcs"
  using assms(1) by (simp add: CommandMeta_new_registers)

definition registry_after_base :: "nat CommandMeta" where
  "registry_after_base =
     \<lparr>base = Some \<lparr>cls_name = ''Command'', cls_bases = [], cls_module = ''debellator.core'',
                    cls_body = 0, command_name = ''debellator.core:Command''\<rparr>,
      commands = Map.empty\<rparr>"

definition registry_after_echo :: "nat CommandMeta" where
  "registry_after_echo =
     registry_after_base\<lparr>commands :=
       [''plugin:Echo'' \<mapsto> \<lparr>cls_name = ''Echo'', cls_bases = [''Command''], cls_module = ''plugin'',
                             cls_body = 1, command_name = ''plugin:Echo''\<rparr>]\<rparr>"

lemma registry_first_definitions:
  "CommandMeta_new \<lparr>base = None, commands = Map.empty\<rparr> ''Command'' [] (Some ''debellator.core'', 0)
     = Inr (\<lparr>cls_name = ''Command'', cls_bases = [], cls_module = ''debellator.core'',
              cls_body = 0, command_name = ''debellator.core:Command''\<rparr>, registry_after_base)"
  "CommandMeta_new registry_after_base ''Echo'' [''Command''] (Some ''plugin'', 1)
     = Inr (\<lparr>cls_name = ''Echo'', cls_bases = [''Command''], cls_module = ''plugin'',
              cls_body = 1, command_name = ''plugin:Echo''\<rparr>, registry_after_echo)"
  by (simp_all add: CommandMeta_new_def Let_def registry_after_base_def registry_after_echo_def)

theorem duplicate_registration_replaces_witness:
  "base registry_after_echo \<noteq> None
   \<and> commands registry_after_echo (''plugin'' @ '':'' @ ''Echo'')
       = Some \<lparr>cls_name = ''Echo'', cls_bases = [''Command''], cls_module = ''plugin'',
                cls_body = 1, command_name = ''plugin:Echo''\<rparr>
   \<and> (\<exists>cls mcs'.
        CommandMeta_new registry_after_echo ''Echo'' [''Command''] (Some ''plugin'', 2) = Inr (cls, mcs')
        \<and> cls_body cls = 2 \<and> commands mcs' (''plugin'' @ '':'' @ ''Echo'') = Some cls)"
proof -
  have b: "base registry_after_echo \<noteq> None"
    by (simp add: registry_after_echo_def registry_after_base_def)
  have c: "commands registry_after_echo (''plugin'' @ '':'' @ ''Echo'')
       = Some \<lparr>cls_name = ''Echo'', cls_bases = [''Command''], cls_module = ''plugin'',
                cls_body = 1, command_name = ''plugin:Echo''\<rparr>"
    by (simp add: registry_after_echo_def registry_after_base_def)
  from duplicate_registration_replaces [OF b c, of "[''Command'']" 2]
  have "\<exists>cls mcs'.
        CommandMeta_new registry_after_echo ''Echo'' [''Command''] (Some ''plugin'', 2) = Inr (cls, mcs')
        \<and> cls_body cls = 2 \<and> commands mcs' (''plugin'' @ '':'' @ ''Echo'') = Some cls"
    by blast
  with b c show ?thesis
    by blast
qed

text \<open>
  Claim C5 as it is stated fails: after the base class and a class \<open>Echo\<close> of the module
  \<open>plugin\<close>, a second class \<open>Echo\<close> of the same module is created without an error and
  takes the place of the first in the table.
\<close>

theorem duplicate_registration_counterexample:
  "CommandMeta_new registry_after_echo ''Echo'' [''Command''] (Some ''plugin'', 2)
   = Inr (\<lparr>cls_name = ''Echo'', cls_bases = [''Command''], cls_module = ''plugin'',
            cls_body = 2, command_name = ''plugin:Echo''\<rparr>,
          registry_after_echo\<lparr>commands :=
            [''plugin:Echo'' \<mapsto> \<lparr>cls_name = ''Echo'', cls_bases = [''Command''],
                                  cls_module = ''plugin'', cls_body = 2,
                                  command_name = ''plugin:Echo''\<rparr>]\<rparr>)"
  by (simp add: CommandMeta_new_def Let_def registry_after_base_def registry_after_echo_def)

section \<open>Properties of the teardown\<close>

lemma teardown_empty:
  "pending_commands st = [] \<Longrightarrow> teardown st = (None, st)"
  by (simp add: teardown_def)

lemma teardown_loop_size_changed:
  "length (pending_commands st) \<noteq> used \<Longrightarrow> teardown_loop used items st = (Some RuntimeError, st)"
  by (cases items) auto

lemma teardown_first_step:
  assumes "pending_commands st = (k, a) # rest" and "k \<notin> fst ` set rest"
  shows "teardown st
    = (Some RuntimeError,
       st\<lparr>futures := (case futures st a of None \<Rightarrow> futures st
                       | Some f \<Rightarrow> (futures st)(a \<mapsto> future_cancel f)),
          pending_commands := rest\<rparr>)"
proof -
  let ?st1 = "st\<lparr>futures := (case futures st a of None \<Rightarrow> futures st
                       | Some f \<Rightarrow> (futures st)(a \<mapsto> future_cancel f))\<rparr>"
  have f: "filter (\<lambda>kv. fst kv \<noteq> k) rest = rest"
    using assms(2) by (induction rest) auto
  have d: "dict_del k (pending_commands ?st1) = Inr rest"
    using assms(1) by (simp add: dict_del_def f)
  have "teardown st = teardown_loop (Suc (length rest)) rest (?st1\<lparr>pending_commands := rest\<rparr>)"
    using assms(1) d by (simp add: teardown_def Let_def)
  also have "\<dots> = (Some RuntimeError, ?st1\<lparr>pending_commands := rest\<rparr>)"
    by (rule teardown_loop_size_changed) simp
  finally show ?thesis .
qed

text \<open>
  Claim C4 fails on the code. With two commands in flight the teardown cancels the
  future of the first entry, removes that entry and then stops with a \<open>RuntimeError\<close>:
  the second entry stays in the table and its future stays pending.
\<close>

theorem teardown_two_pending:
  "fst (teardown \<lparr>pending_commands = [(''plugin:Echo/1'', 0), (''plugin:Echo/2'', 1)],
                  futures = [0 \<mapsto> Pending, 1 \<mapsto> (Pending :: nat future_state)]\<rparr>)
     = Some RuntimeError
   \<and> pending_commands
        (snd (teardown \<lparr>pending_commands = [(''plugin:Echo/1'', 0), (''plugin:Echo/2'', 1)],
                        futures = [0 \<mapsto> Pending, 1 \<mapsto> (Pending :: nat future_state)]\<rparr>))
     = [(''plugin:Echo/2'', 1)]
   \<and> futures
        (snd (teardown \<lparr>pending_commands = [(''plugin:Echo/1'', 0), (''plugin:Echo/2'', 1)],
                        futures = [0 \<mapsto> Pending, 1 \<mapsto> (Pending :: nat future_state)]\<rparr>)) 0
     = Some Cancelled
   \<and> futures
        (snd (teardown \<lparr>pending_commands = [(''plugin:Echo/1'', 0), (''plugin:Echo/2'', 1)],
                        futures = [0 \<mapsto> Pending, 1 \<mapsto> (Pending :: nat future_state)]\<rparr>)) 1
     = Some Pending"
  by (simp add: teardown_def dict_del_def future_cancel_def)



section \<open>Properties of the acknowledgement frame\<close>


lemma decode_header_uid_consistent:
  assumes "decode_header h = Inr (uid, flags, cnl, dl)"
  shows "pack_uid (uid_time uid) (uid_id uid) (uid_tid uid) (uid_seq uid) = Inr (uid_bytes uid)"
proof -
  from assms obtain ub where "Uid_of_bytes ub = Inr uid"
    by (auto simp: decode_header_def split: if_splits sum.splits prod.splits)
  then have "unpack_uid (uid_bytes uid) = Inr (uid_time uid, uid_id uid, uid_tid uid, uid_seq uid)"
    by (auto simp: Uid_of_bytes_def split: sum.splits prod.splits)
  then show ?thesis
    by (rule pack_uid_unpack_uid)
qed

lemma read_frame_uid_consistent:
  assumes "read_frame cd buffer stream = Inr (uid, flags, cnl, channel_name, dl, buffer1, stream1)"
  shows "pack_uid (uid_time uid) (uid_id uid) (uid_tid uid) (uid_seq uid) = Inr (uid_bytes uid)"
proof -
  from assms obtain h c d where "decode_header h = Inr (uid, flags, c, d)"
    by (auto simp: read_frame_def split: sum.splits prod.splits if_splits)
  then show ?thesis
    by (rule decode_header_uid_consistent)
qed

lemma ack_flags_encode: "ChunkFlags_encode ack_flags = 5"
  by (simp add: ack_flags_def ChunkFlags_encode_def mask_value_def masks_eom_def
      masks_send_ack_def masks_recv_ack_def masks_compression_def)

lemma Channel_send_ack_succeeds:
  assumes "pack_uid (uid_time uid) (uid_id uid) (uid_tid uid) (uid_seq uid) = Inr (uid_bytes uid)"
  shows "\<exists>header. Channel_send_ack cd uid w = Inr (w\<lparr>io_send := io_send w @ [Data header]\<rparr>)
     \<and> encode_header (str_encode cd) uid None None ack_flags = Inr header
     \<and> decode_header header = Inr (uid, ack_flags, 0, 0)"
proof -
  have "\<exists>hd. pack_header (uid_bytes uid) (ChunkFlags_encode ack_flags) 0 0 = Inr hd"
    by (simp add: pack_header_def pack_uint_def ack_flags_encode)
  then obtain header where e: "encode_header (str_encode cd) uid None None ack_flags = Inr header"
    by (auto simp: encode_header_def)
  have "decode_header header = Inr (uid, ack_flags, 0, 0)"
    using decode_encode_header [OF e assms] by simp
  with e show ?thesis
    by (simp add: Channel_send_ack_def ack_flags_def)
qed

lemma receive_single_message_io_send:
  assumes "read_frame cd buffer stream = Inr (uid, flags, cnl, channel_name, dl, buffer1, stream1)"
    and "(if send_ack flags then Channel_send_ack cd uid w else Inr w) = Inr w1"
  shows "io_send (fst (snd (receive_single_message cd now (w, buffer, stream)))) = io_send w1"
  using assms
  by (simp add: receive_single_message_def split: sum.splits option.splits future_state.splits)

section \<open>Properties of split_data\<close>

lemma split_loop_result:
  assumes "1 \<le> sz"
  shows "start \<le> length data \<Longrightarrow>
    \<exists>ps. split_loop data sz start acc = Some (acc @ ps) \<and> concat ps = drop start data
      \<and> (\<forall>p \<in> set ps. p \<noteq> [] \<and> length p \<le> sz)"
proof (induction "length data - start" arbitrary: start acc rule: less_induct)
  case less
  show ?case
  proof (cases "start < length data")
    case False
    with less.prems show ?thesis
      by (subst split_loop.simps) simp
  next
    case True
    let ?stop = "min (start + sz) (length data)"
    let ?p = "take (?stop - start) (drop start data)"
    have s: "start < ?stop" "?stop \<le> length data"
      using True assms by simp_all
    then have "length data - ?stop < length data - start"
      by linarith
    from less.hyps [OF this s(2), of "acc @ [?p]"] obtain ps
      where ps: "split_loop data sz ?stop (acc @ [?p]) = Some ((acc @ [?p]) @ ps)"
        "concat ps = drop ?stop data" "\<forall>p \<in> set ps. p \<noteq> [] \<and> length p \<le> sz"
      by blast
    have "drop ?stop data = drop (?stop - start) (drop start data)"
      using s by simp
    then have c: "?p @ concat ps = drop start data"
      by (simp only: ps(2) append_take_drop_id)
    have n: "?p \<noteq> [] \<and> length ?p \<le> sz"
      using s True by auto
    have "split_loop data sz start acc = Some (acc @ (?p # ps))"
      using True ps(1) by (subst split_loop.simps) simp
    with c n ps(3) show ?thesis
      by (intro exI [of _ "?p # ps"]) simp
  qed
qed

lemma split_data_result:
  assumes "1 \<le> sz"
  shows "\<exists>ps. split_data data sz = Some ps \<and> concat ps = data
      \<and> (\<forall>p \<in> set ps. p \<noteq> [] \<and> length p \<le> sz)"
  using split_loop_result [OF assms, of 0 data "[]"] by (simp add: split_data_def)

lemma split_data_empty: "split_data [] sz = Some []"
  by (simp add: split_data_def split_loop.simps)

section \<open>Properties of the reader\<close>

lemma encode_header_length: "encode_header se uid cn d fl = Inr h \<Longrightarrow> length h = 62"
  by (auto simp: encode_header_def Let_def length_md5 dest!: pack_header_length split: sum.splits)

lemma readexactly_append: "length a = n \<Longrightarrow> readexactly n (a @ rest) = Inr (a, rest)"
  by (simp add: readexactly_def)

lemma readexactly_empty: "0 < n \<Longrightarrow> readexactly n [] = Inl IncompleteReadError"
  by (simp add: readexactly_def)

lemma read_frame_data:
  assumes e: "encode_header (str_encode cd) uid (Some name) (Some part') flags = Inr h"
    and c: "pack_uid (uid_time uid) (uid_id uid) (uid_tid uid) (uid_seq uid) = Inr (uid_bytes uid)"
    and nm: "name \<noteq> []" "str_encode cd name \<noteq> []" "bytes_decode cd (str_encode cd name) = Inr name"
    and p: "part' \<noteq> []"
    and z: "(if compression flags then zlib_decompress cd part' else Inr part') = Inr part"
  shows "read_frame cd buffer (h @ str_encode cd name @ part' @ rest)
    = Inr (uid, flags, int (length (str_encode cd name)), Some name, int (length part'),
           buffer(uid \<mapsto> (case buffer uid of None \<Rightarrow> [] | Some b \<Rightarrow> b) @ part), rest)"
proof -
  have d: "decode_header h
      = Inr (uid, flags, int (length (str_encode cd name)), int (length part'))"
    using decode_encode_header [OF e c] nm(1) by simp
  have r: "readexactly (HEADER_SIZE + 16) (h @ str_encode cd name @ part' @ rest)
      = Inr (h, str_encode cd name @ part' @ rest)"
    using encode_header_length [OF e] by (intro readexactly_append) (simp add: HEADER_SIZE_def)
  show ?thesis
    using z by (simp add: read_frame_def r d nm p readexactly_append)
qed

lemma read_frame_eom:
  assumes e: "encode_header (str_encode cd) uid (Some name) None flags = Inr h"
    and c: "pack_uid (uid_time uid) (uid_id uid) (uid_tid uid) (uid_seq uid) = Inr (uid_bytes uid)"
    and nm: "name \<noteq> []" "str_encode cd name \<noteq> []" "bytes_decode cd (str_encode cd name) = Inr name"
  shows "read_frame cd buffer (h @ str_encode cd name @ rest)
    = Inr (uid, flags, int (length (str_encode cd name)), Some name, 0, buffer, rest)"
proof -
  have d: "decode_header h = Inr (uid, flags, int (length (str_encode cd name)), 0)"
    using decode_encode_header [OF e c] nm(1) by simp
  have r: "readexactly (HEADER_SIZE + 16) (h @ str_encode cd name @ rest)
      = Inr (h, str_encode cd name @ rest)"
    using encode_header_length [OF e] by (intro readexactly_append) (simp add: HEADER_SIZE_def)
  show ?thesis
    by (simp add: read_frame_def r d nm readexactly_append)
qed

lemma receive_single_message_eof:
  "receive_single_message cd now (w, buffer, []) = (Some IncompleteReadError, (w, buffer, []))"
  by (simp add: receive_single_message_def read_frame_def readexactly_def HEADER_SIZE_def)

lemma receive_loop_eof:
  "receive_loop cd now (w, buffer, []) = Some (IncompleteReadError, (w, buffer, []))"
  by (subst receive_loop.simps) (simp add: receive_single_message_eof)

lemma receive_single_message_data:
  assumes "read_frame cd buffer stream = Inr (uid, flags, cnl, cn, dl, buffer1, stream1)"
    and "\<not> send_ack flags" and "\<not> eom flags"
  shows "receive_single_message cd now (w, buffer, stream) = (None, (w, buffer1, stream1))"
  using assms by (simp add: receive_single_message_def)

lemma receive_single_message_eom:
  assumes "read_frame cd buffer stream = Inr (uid, flags, cnl, Some name, 0, buffer, stream1)"
    and "cnl \<noteq> 0" and "eom flags" and "\<not> recv_ack flags"
    and "(if send_ack flags then Channel_send_ack cd uid w else Inr w) = Inr w1"
    and "case buffer uid of None \<Rightarrow> True | Some payload \<Rightarrow> decode cd payload = Inr msg"
  shows "receive_single_message cd now (w, buffer, stream)
    = (None,
       (if buffer uid = None then w1
        else w1\<lparr>io_receive := queue_put name msg (io_receive w1)\<rparr>,
        buffer(uid := None), stream1))"
proof (cases "buffer uid")
  case None
  then have "buffer(uid := None) = buffer"
    by auto
  with None assms show ?thesis
    by (simp add: receive_single_message_def split: option.splits)
next
  case (Some payload')
  with assms show ?thesis
    by (simp add: receive_single_message_def split: option.splits)
qed

section \<open>Sending and receiving a message\<close>

lemma written_Cons: "written (Parts ps # q) = concat ps @ written q"
  by (simp add: written_def item_bytes_def)

lemma written_append: "written (q @ q') = written q @ written q'"
  by (simp add: written_def)

lemma send_parts_receive:
  assumes c: "pack_uid (uid_time uid) (uid_id uid) (uid_tid uid) (uid_seq uid) = Inr (uid_bytes uid)"
    and nm: "name \<noteq> []" "str_encode cd name \<noteq> []" "bytes_decode cd (str_encode cd name) = Inr name"
    and z: "compress \<noteq> 0 \<longrightarrow> (\<forall>p. p \<noteq> [] \<longrightarrow> zlib_compress cd p compress \<noteq> []
              \<and> zlib_decompress cd (zlib_compress cd p compress) = Inr p)"
  shows "send_parts cd uid name compress parts q = (None, q') \<Longrightarrow> \<forall>p \<in> set parts. p \<noteq> [] \<Longrightarrow>
    \<exists>fr. q' = q @ fr \<and>
      (\<forall>rest w buffer.
         receive_loop cd now (w, buffer, written fr @ rest)
         = receive_loop cd now
             (w, (if parts = [] then buffer
                  else buffer(uid \<mapsto> (case buffer uid of None \<Rightarrow> [] | Some b \<Rightarrow> b) @ concat parts)),
              rest))"
proof (induction parts arbitrary: q)
  case Nil
  then show ?case
    by (simp add: written_def)
next
  case (Cons p ps)
  let ?p' = "if compress \<noteq> 0 then zlib_compress cd p compress else p"
  let ?fl = "\<lparr>eom = False, send_ack = False, recv_ack = False, compression = (compress \<noteq> 0)\<rparr>"
  from Cons.prems(1) obtain h where h: "encode_header (str_encode cd) uid (Some name) (Some ?p') ?fl = Inr h"
    and s: "send_parts cd uid name compress ps (q @ [Parts [h, str_encode cd name, ?p']]) = (None, q')"
    by (auto simp: Let_def split: sum.splits)
  from Cons.prems(2) have pne: "p \<noteq> []" and psne: "\<forall>p \<in> set ps. p \<noteq> []"
    by simp_all
  have p'ne: "?p' \<noteq> []"
    using z pne by auto
  have zz: "(if compression ?fl then zlib_decompress cd ?p' else Inr ?p') = Inr p"
    using z pne by auto
  from Cons.IH [OF s psne] obtain fr where fr: "q' = (q @ [Parts [h, str_encode cd name, ?p']]) @ fr"
    and r: "\<And>rest w buffer. receive_loop cd now (w, buffer, written fr @ rest)
         = receive_loop cd now
             (w, (if ps = [] then buffer
                  else buffer(uid \<mapsto> (case buffer uid of None \<Rightarrow> [] | Some b \<Rightarrow> b) @ concat ps)),
              rest)"
    by blast
  let ?fr = "Parts [h, str_encode cd name, ?p'] # fr"
  have step: "receive_loop cd now (w, buffer, written ?fr @ rest)
         = receive_loop cd now
             (w, buffer(uid \<mapsto> (case buffer uid of None \<Rightarrow> [] | Some b \<Rightarrow> b) @ concat (p # ps)), rest)"
    for rest w buffer
  proof -
    let ?b1 = "buffer(uid \<mapsto> (case buffer uid of None \<Rightarrow> [] | Some b \<Rightarrow> b) @ p)"
    have w: "written ?fr @ rest = h @ str_encode cd name @ ?p' @ (written fr @ rest)"
      by (simp add: written_Cons)
    have "read_frame cd buffer (h @ str_encode cd name @ ?p' @ (written fr @ rest))
        = Inr (uid, ?fl, int (length (str_encode cd name)), Some name, int (length ?p'), ?b1,
               written fr @ rest)"
      using h c nm p'ne zz by (rule read_frame_data)
    then have "receive_single_message cd now (w, buffer, h @ str_encode cd name @ ?p' @ (written fr @ rest))
        = (None, (w, ?b1, written fr @ rest))"
      by (rule receive_single_message_data) simp_all
    then have "receive_loop cd now (w, buffer, written ?fr @ rest)
        = receive_loop cd now (w, ?b1, written fr @ rest)"
      unfolding w by (subst receive_loop.simps) simp
    also have "\<dots> = receive_loop cd now
        (w, (if ps = [] then ?b1
             else ?b1(uid \<mapsto> (case ?b1 uid of None \<Rightarrow> [] | Some b \<Rightarrow> b) @ concat ps)), rest)"
      by (rule r)
    also have "(if ps = [] then ?b1
             else ?b1(uid \<mapsto> (case ?b1 uid of None \<Rightarrow> [] | Some b \<Rightarrow> b) @ concat ps))
        = buffer(uid \<mapsto> (case buffer uid of None \<Rightarrow> [] | Some b \<Rightarrow> b) @ concat (p # ps))"
      by simp
    finally show ?thesis .
  qed
  show ?case
  proof (intro exI [of _ ?fr] conjI allI)
    show "q' = q @ ?fr"
      using fr by simp
    show "receive_loop cd now (w, buffer, written ?fr @ rest)
         = receive_loop cd now
             (w, (if p # ps = [] then buffer
                  else buffer(uid \<mapsto> (case buffer uid of None \<Rightarrow> [] | Some b \<Rightarrow> b) @ concat (p # ps))),
              rest)" for rest w buffer
      by (simp only: step list.distinct if_False)
  qed
qed


lemma send_receive:
  assumes n: "1 \<le> n"
    and ok: "\<forall>w' e. Channel_send cd thr now n name data ack compress w \<noteq> Some (w', Raised e)"
    and en: "encode cd data = Inr payload"
    and de: "payload \<noteq> [] \<longrightarrow> decode cd payload = Inr msg"
    and nm: "name \<noteq> []" "str_encode cd name \<noteq> []" "bytes_decode cd (str_encode cd name) = Inr name"
    and z: "compress \<noteq> 0 \<longrightarrow> (\<forall>p. p \<noteq> [] \<longrightarrow> zlib_compress cd p compress \<noteq> []
              \<and> zlib_decompress cd (zlib_compress cd p compress) = Inr p)"
  shows "\<exists>w' uid ackh fr.
      Channel_send cd thr now n name data ack compress w
        = Some (w', if ack then Awaiting uid else Returned ())
      \<and> io_send w' = io_send w @ fr
      \<and> (payload = [] \<longrightarrow> length fr = 1)
      \<and> decode_header ackh = Inr (uid, ack_flags, 0, 0)
      \<and> receive_reader cd now2 rw (written fr)
          = Some (rw\<lparr>io_send := io_send rw @ (if ack then [Data ackh] else []),
                     io_receive := (if payload = [] then io_receive rw
                                    else queue_put name msg (io_receive rw))\<rparr>,
                  Returned ())"
proof -
  let ?S = "Channel_send cd thr now n name data ack compress w"
  obtain parts where sp: "split_data payload n = Some parts" "concat parts = payload"
    "\<forall>p \<in> set parts. p \<noteq> []"
    using split_data_result [OF n, of payload] by blast
  have pe: "parts = [] \<longleftrightarrow> payload = []"
    using sp(2,3) by (cases parts) auto
  obtain uid l' where u: "Uid_init thr now (uid_state w) None None None None None = Inr (uid, l')"
  proof (cases "Uid_init thr now (uid_state w) None None None None None")
    case (Inl e)
    then have "\<exists>w'. ?S = Some (w', Raised e)"
      by (simp add: Channel_send_def)
    with ok show ?thesis by blast
  next
    case (Inr x)
    then show ?thesis using that by (cases x) auto
  qed
  have c: "pack_uid (uid_time uid) (uid_id uid) (uid_tid uid) (uid_seq uid) = Inr (uid_bytes uid)"
    using u by (rule Uid_init_consistent) simp
  obtain q' where q': "send_parts cd uid name compress parts (io_send w) = (None, q')"
  proof (cases "send_parts cd uid name compress parts (io_send w)")
    case (Pair eo q)
    show ?thesis
    proof (cases eo)
      case None
      with Pair that show ?thesis by simp
    next
      case (Some e)
      with Pair have "\<exists>w'. ?S = Some (w', Raised e)"
        by (simp add: Channel_send_def u en sp(1) Let_def)
      with ok show ?thesis by blast
    qed
  qed
  let ?fl = "\<lparr>eom = True, send_ack = ack, recv_ack = False, compression = False\<rparr>"
  obtain h where h: "encode_header (str_encode cd) uid (Some name) None ?fl = Inr h"
  proof (cases "encode_header (str_encode cd) uid (Some name) None ?fl")
    case (Inl e)
    then have "\<exists>w'. ?S = Some (w', Raised e)"
      by (simp add: Channel_send_def u en sp(1) q' Let_def)
    with ok show ?thesis by blast
  next
    case (Inr x)
    then show ?thesis using that by simp
  qed
  from send_parts_receive [OF c nm z q' sp(3), of now2] obtain fr0 where fr0: "q' = io_send w @ fr0"
    and r0: "\<And>rest w buffer. receive_loop cd now2 (w, buffer, written fr0 @ rest)
         = receive_loop cd now2
             (w, (if parts = [] then buffer
                  else buffer(uid \<mapsto> (case buffer uid of None \<Rightarrow> [] | Some b \<Rightarrow> b) @ concat parts)),
              rest)"
    by blast
  have fr0e: "payload = [] \<Longrightarrow> fr0 = []"
    using q' fr0 pe by simp
  let ?fr = "fr0 @ [Parts [h, str_encode cd name]]"
  let ?w' = "(w\<lparr>uid_state := l', io_send := q' @ [Parts [h, str_encode cd name]]\<rparr>)"
  let ?w'' = "if ack then ?w'\<lparr>acknowledgements := (acknowledgements ?w')(uid \<mapsto> Pending)\<rparr> else ?w'"
  have S: "?S = Some (?w'', if ack then Awaiting uid else Returned ())"
    by (simp add: Channel_send_def u en sp(1) q' h Let_def)
  have io: "io_send ?w'' = io_send w @ ?fr"
    by (simp add: fr0)
  from Channel_send_ack_succeeds [OF c, of cd rw] obtain ackh
    where a: "Channel_send_ack cd uid rw = Inr (rw\<lparr>io_send := io_send rw @ [Data ackh]\<rparr>)"
      "decode_header ackh = Inr (uid, ack_flags, 0, 0)"
    by blast
  let ?b = "if parts = [] then Map.empty else [uid \<mapsto> payload]"
  let ?w1 = "if ack then rw\<lparr>io_send := io_send rw @ [Data ackh]\<rparr> else rw"
  let ?w2 = "if ?b uid = None then ?w1 else ?w1\<lparr>io_receive := queue_put name msg (io_receive ?w1)\<rparr>"
  have wr: "written ?fr = written fr0 @ (h @ str_encode cd name @ [])"
    by (simp add: written_append written_Cons) (simp add: written_def)
  have "receive_loop cd now2 (rw, Map.empty, written ?fr)
      = receive_loop cd now2 (rw, ?b, h @ str_encode cd name @ [])"
    unfolding wr using r0 [of rw Map.empty "h @ str_encode cd name @ []"] by (simp add: sp(2))
  also have "\<dots> = receive_loop cd now2 (?w2, ?b(uid := None), [])"
  proof -
    have rf: "read_frame cd ?b (h @ str_encode cd name @ [])
        = Inr (uid, ?fl, int (length (str_encode cd name)), Some name, 0, ?b, [])"
      using h c nm by (rule read_frame_eom)
    have "receive_single_message cd now2 (rw, ?b, h @ str_encode cd name @ [])
        = (None, (?w2, ?b(uid := None), []))"
      using rf
    proof (rule receive_single_message_eom)
      show "int (length (str_encode cd name)) \<noteq> 0" using nm(2) by simp
      show "(if send_ack ?fl then Channel_send_ack cd uid rw else Inr rw) = Inr ?w1"
        by (simp add: a(1))
      show "case ?b uid of None \<Rightarrow> True | Some payload \<Rightarrow> decode cd payload = Inr msg"
        using de pe by simp
    qed simp_all
    then show ?thesis
      by (subst receive_loop.simps) simp
  qed
  also have "\<dots> = Some (IncompleteReadError, (?w2, ?b(uid := None), []))"
    by (rule receive_loop_eof)
  finally have "receive_reader cd now2 rw (written ?fr) = Some (?w2, Returned ())"
    by (simp add: receive_reader_def)
  moreover have "?w2 = rw\<lparr>io_send := io_send rw @ (if ack then [Data ackh] else []),
                     io_receive := (if payload = [] then io_receive rw
                                    else queue_put name msg (io_receive rw))\<rparr>"
    using pe by simp
  ultimately have R: "receive_reader cd now2 rw (written ?fr)
      = Some (rw\<lparr>io_send := io_send rw @ (if ack then [Data ackh] else []),
                     io_receive := (if payload = [] then io_receive rw
                                    else queue_put name msg (io_receive rw))\<rparr>, Returned ())"
    by simp
  have L: "payload = [] \<longrightarrow> length ?fr = 1"
    using fr0e by simp
  from S io L a(2) R show ?thesis
    by blast
qed


lemma example_codec_name:
  "''x'' \<noteq> []" "str_encode example_codec ''x'' \<noteq> []"
  "bytes_decode example_codec (str_encode example_codec ''x'') = Inr ''x''"
  by (simp_all add: example_codec_def) code_simp

lemma encode_header_succeeds:
  assumes "(case channel_name of None \<Rightarrow> 0 | Some n \<Rightarrow> if n \<noteq> [] then length (se n) else 0) < 2 ^ 16"
    and "(case data of None \<Rightarrow> 0 | Some d \<Rightarrow> length d) < 2 ^ 32"
  shows "\<exists>h. encode_header se uid channel_name data flags = Inr h"
proof -
  have "int (case channel_name of None \<Rightarrow> 0 | Some n \<Rightarrow> if n \<noteq> [] then length (se n) else 0) < 2 ^ 16"
    using assms(1) by (simp only: of_nat_less_iff [symmetric, where ?'a = int]) simp
  then have c: "(case channel_name of None \<Rightarrow> 0 | Some n \<Rightarrow> if n \<noteq> [] then int (length (se n)) else 0) < 2 ^ 16"
    by (simp split: option.splits if_splits)
  have "int (case data of None \<Rightarrow> 0 | Some d \<Rightarrow> length d) < 2 ^ 32"
    using assms(2) by (simp only: of_nat_less_iff [symmetric, where ?'a = int]) simp
  then have d: "(case data of None \<Rightarrow> 0 | Some d \<Rightarrow> int (length d)) < 2 ^ 32"
    by (simp split: option.splits)
  have c0: "0 \<le> (case channel_name of None \<Rightarrow> 0 | Some n \<Rightarrow> if n \<noteq> [] then int (length (se n)) else 0)"
    by (simp split: option.splits)
  have d0: "0 \<le> (case data of None \<Rightarrow> 0 | Some d \<Rightarrow> int (length d))"
    by (simp split: option.splits)
  have f: "0 \<le> ChunkFlags_encode flags" "ChunkFlags_encode flags < 2 ^ 64"
    using ChunkFlags_encode_range [of flags] by simp_all
  show ?thesis
    using c d c0 d0 f by (simp add: encode_header_def pack_header_def pack_uint_def Let_def)
qed

text \<open>
  Claim C9. Whenever \<open>_receive_single_message\<close> has read a frame (header, channel name
  and data) whose \<open>send_ack\<close> flag is set, the outgoing queue has one more item when it
  is done, whether it ends normally or not: the header
  \<open>_encode_header(uid, None, None, flags={'eom': True, 'recv_ack': True})\<close>, which
  decodes to the uid of the frame read, the flags \<open>eom\<close> and \<open>recv_ack\<close>, no channel
  name and no data.
\<close>

theorem automatic_acknowledgement:
  assumes "read_frame cd buffer stream = Inr (uid, flags, cnl, channel_name, dl, buffer1, stream1)"
    and "send_ack flags"
  shows "\<exists>header.
      io_send (fst (snd (receive_single_message cd now (w, buffer, stream)))) = io_send w @ [Data header]
      \<and> encode_header (str_encode cd) uid None None ack_flags = Inr header
      \<and> decode_header header = Inr (uid, ack_flags, 0, 0)"
proof -
  have c: "pack_uid (uid_time uid) (uid_id uid) (uid_tid uid) (uid_seq uid) = Inr (uid_bytes uid)"
    using assms(1) by (rule read_frame_uid_consistent)
  from Channel_send_ack_succeeds [OF c, of cd w] obtain header
    where h: "Channel_send_ack cd uid w = Inr (w\<lparr>io_send := io_send w @ [Data header]\<rparr>)"
      "encode_header (str_encode cd) uid None None ack_flags = Inr header"
      "decode_header header = Inr (uid, ack_flags, 0, 0)"
    by blast
  have "io_send (fst (snd (receive_single_message cd now (w, buffer, stream))))
      = io_send (w\<lparr>io_send := io_send w @ [Data header]\<rparr>)"
    using assms(1) by (rule receive_single_message_io_send) (simp add: assms(2) h(1))
  with h show ?thesis
    by auto
qed


theorem automatic_acknowledgement_witness:
  "read_frame example_codec Map.empty
     (projr (encode_header (str_encode example_codec) example_uid (Some ''x'') None
              \<lparr>eom = True, send_ack = True, recv_ack = False, compression = False\<rparr>)
      @ str_encode example_codec ''x'' @ [])
   = Inr (example_uid, \<lparr>eom = True, send_ack = True, recv_ack = False, compression = False\<rparr>,
          int (length (str_encode example_codec ''x'')), Some ''x'', 0, Map.empty, [])
   \<and> send_ack \<lparr>eom = True, send_ack = True, recv_ack = False, compression = False\<rparr>
   \<and> (\<exists>header.
        io_send (fst (snd (receive_single_message example_codec example_now
          (empty_world, Map.empty,
           projr (encode_header (str_encode example_codec) example_uid (Some ''x'') None
                    \<lparr>eom = True, send_ack = True, recv_ack = False, compression = False\<rparr>)
           @ str_encode example_codec ''x'' @ []))))
          = io_send empty_world @ [Data header]
        \<and> encode_header (str_encode example_codec) example_uid None None ack_flags = Inr header
        \<and> decode_header header = Inr (example_uid, ack_flags, 0, 0))"
proof -
  let ?fl = "\<lparr>eom = True, send_ack = True, recv_ack = False, compression = False\<rparr>"
  have "\<exists>h. encode_header (str_encode example_codec) example_uid (Some ''x'') None ?fl = Inr h"
    by (rule encode_header_succeeds) (simp_all add: example_codec_def)
  then obtain h where h: "encode_header (str_encode example_codec) example_uid (Some ''x'') None ?fl = Inr h"
    by blast
  have rf: "read_frame example_codec Map.empty (h @ str_encode example_codec ''x'' @ [])
      = Inr (example_uid, ?fl, int (length (str_encode example_codec ''x'')), Some ''x'', 0, Map.empty, [])"
    using h example_uid_consistent example_codec_name by (rule read_frame_eom)
  have sa: "send_ack ?fl"
    by simp
  from automatic_acknowledgement [OF rf sa, of example_now empty_world] rf sa show ?thesis
    by (simp add: h)
qed


lemma never_raised_iff:
  "(\<forall>w' e. r \<noteq> Some (w', Raised e)) \<longleftrightarrow> (case r of Some (w', Raised e) \<Rightarrow> False | _ \<Rightarrow> True)"
  by (auto split: option.splits prod.splits outcome.splits)

lemma example_send_three_bytes:
  "\<forall>w' e. Channel_send example_codec example_thread example_now 2 ''x'' [1, 2, 3] False 0 empty_world
     \<noteq> Some (w', Raised e)"
  unfolding never_raised_iff by code_simp

lemma example_send_empty:
  "\<forall>w' e. Channel_send example_codec example_thread example_now 1 ''x'' [] False 0 empty_world
     \<noteq> Some (w', Raised e)"
  unfolding never_raised_iff by code_simp

text \<open>
  Claim C1, as amended. For every chunk size \<open>n \<ge> 1\<close> and every message whose \<open>send\<close>
  does not raise, \<open>send\<close> puts its frames on the outgoing queue, and a reader that is
  fed the bytes written for these frames runs to the end of the stream; when the encoded
  payload is not empty, the reader has put exactly the decoded payload into the queue
  of the channel, and when it is empty, \<open>send\<close> has put the terminal frame alone and the
  reader has delivered nothing. The channel name is not empty and survives its encoding,
  and when compression is asked for, \<open>zlib\<close> gives back what it compressed and never
  returns an empty string.
\<close>

theorem chunk_roundtrip:
  assumes "1 \<le> n"
    and "\<forall>w' e. Channel_send cd thr now n name data ack compress w \<noteq> Some (w', Raised e)"
    and "encode cd data = Inr payload"
    and "payload \<noteq> [] \<longrightarrow> decode cd payload = Inr msg"
    and "name \<noteq> []" "str_encode cd name \<noteq> []" "bytes_decode cd (str_encode cd name) = Inr name"
    and "compress \<noteq> 0 \<longrightarrow> (\<forall>p. p \<noteq> [] \<longrightarrow> zlib_compress cd p compress \<noteq> []
              \<and> zlib_decompress cd (zlib_compress cd p compress) = Inr p)"
  shows "\<exists>w' uid ackh fr.
      Channel_send cd thr now n name data ack compress w
        = Some (w', if ack then Awaiting uid else Returned ())
      \<and> io_send w' = io_send w @ fr
      \<and> (payload = [] \<longrightarrow> length fr = 1)
      \<and> decode_header ackh = Inr (uid, ack_flags, 0, 0)
      \<and> receive_reader cd now2 rw (written fr)
          = Some (rw\<lparr>io_send := io_send rw @ (if ack then [Data ackh] else []),
                     io_receive := (if payload = [] then io_receive rw
                                    else queue_put name msg (io_receive rw))\<rparr>,
                  Returned ())"
  using assms by (rule send_receive)

theorem chunk_roundtrip_witness:
  "split_data [1, 2, 3] 2 = Some [[1, 2], [3]]
   \<and> snd (the (Channel_send example_codec example_thread example_now 2 ''x'' [1, 2, 3] False 0 empty_world))
       = Returned ()
   \<and> map_option (\<lambda>r. (io_receive (fst r) ''x'', snd r))
        (receive_reader example_codec example_now empty_world
          (written (io_send (fst (the
            (Channel_send example_codec example_thread example_now 2 ''x'' [1, 2, 3] False 0 empty_world))))))
       = Some (Some [[1, 2, 3]], Returned ())"
proof -
  have s: "split_data [1, 2, 3] 2 = Some [[1, 2], [3]]"
    by code_simp
  have e: "encode example_codec [1, 2, 3] = Inr [1, 2, 3]"
    "[1, 2, 3 :: byte] \<noteq> [] \<longrightarrow> decode example_codec [1, 2, 3] = Inr [1, 2, 3]"
    by (simp_all add: example_codec_def)
  have z: "(0::nat) \<noteq> 0 \<longrightarrow> (\<forall>p. p \<noteq> [] \<longrightarrow> zlib_compress example_codec p 0 \<noteq> []
              \<and> zlib_decompress example_codec (zlib_compress example_codec p 0) = Inr p)"
    by simp
  from chunk_roundtrip [OF _ example_send_three_bytes e example_codec_name z, of example_now empty_world]
  obtain w' fr where
    "Channel_send example_codec example_thread example_now 2 ''x'' [1, 2, 3] False 0 empty_world
       = Some (w', Returned ())"
    "io_send w' = io_send empty_world @ fr"
    "receive_reader example_codec example_now empty_world (written fr)
       = Some (empty_world\<lparr>io_send := io_send empty_world @ [],
                 io_receive := queue_put ''x'' [1, 2, 3] (io_receive empty_world)\<rparr>, Returned ())"
    by auto
  with s show ?thesis
    by (simp add: empty_world_def queue_put_def)
qed

text \<open>
  Claim C1 as it is stated fails for the empty payload: it is split into no chunk,
  \<open>send\<close> puts the terminal frame alone, and the reader that receives this frame comes to
  the end of the stream with the queue of the channel still missing: no (empty) message
  is delivered, because no buffer exists for the uid.
\<close>

theorem chunk_roundtrip_counterexample:
  "split_data [] 1 = Some []
   \<and> snd (the (Channel_send example_codec example_thread example_now 1 ''x'' [] False 0 empty_world))
       = Returned ()
   \<and> length (io_send (fst (the
        (Channel_send example_codec example_thread example_now 1 ''x'' [] False 0 empty_world)))) = 1
   \<and> map_option (\<lambda>r. (io_receive (fst r) ''x'', snd r))
        (receive_reader example_codec example_now empty_world
          (written (io_send (fst (the
            (Channel_send example_codec example_thread example_now 1 ''x'' [] False 0 empty_world))))))
       = Some (None, Returned ())"
proof -
  have e: "encode example_codec [] = Inr []"
    "[] \<noteq> ([] :: bytes) \<longrightarrow> decode example_codec [] = Inr []"
    by (simp_all add: example_codec_def)
  have z: "(0::nat) \<noteq> 0 \<longrightarrow> (\<forall>p. p \<noteq> [] \<longrightarrow> zlib_compress example_codec p 0 \<noteq> []
              \<and> zlib_decompress example_codec (zlib_compress example_codec p 0) = Inr p)"
    by simp
  from send_receive [OF _ example_send_empty e example_codec_name z, of example_now empty_world]
  obtain w' fr where
    "Channel_send example_codec example_thread example_now 1 ''x'' [] False 0 empty_world
       = Some (w', Returned ())"
    "io_send w' = io_send empty_world @ fr" "length fr = 1"
    "receive_reader example_codec example_now empty_world (written fr)
       = Some (empty_world\<lparr>io_send := io_send empty_world @ [],
                 io_receive := io_receive empty_world\<rparr>, Returned ())"
    by auto
  then show ?thesis
    by (simp add: empty_world_def split_data_empty)
qed


end
